theory Spec2Isabelle
  imports
    Main
    "HOL-Library.AList"
    "HOL-Library.Char_ord"
    "HOL-Library.List_Lexorder"
    "HOL-Library.Multiset"
    "HOL-Library.Sublist"
begin

unbundle bit_operations_syntax

section \<open>Python strings\<close>

text \<open>
  The scripts work on Python \<open>str\<close> values read from the standard output of
  \<open>snmpget\<close> and \<open>snmpwalk\<close>. A string is modelled as a list of 8-bit characters, each
  read as the code point of the same number (0 to 255). Within that range Python's
  \<open>str.isspace\<close>, which is also the regular expression class \<open>\s\<close> and the set removed by
  \<open>str.strip()\<close>, holds exactly for the twelve characters below, and the class \<open>\d\<close> for the
  ten ASCII digits.
\<close>

definition isspace :: "char \<Rightarrow> bool" where
  "isspace c \<longleftrightarrow> c \<in> set [CHR 0x09, CHR 0x0A, CHR 0x0B, CHR 0x0C, CHR 0x0D,
     CHR 0x1C, CHR 0x1D, CHR 0x1E, CHR 0x1F, CHR 0x20, CHR 0x85, CHR 0xA0]"

definition isdigit :: "char \<Rightarrow> bool" where
  "isdigit c \<longleftrightarrow> c \<in> set ''0123456789''"

definition isupper_ascii :: "char \<Rightarrow> bool" where
  "isupper_ascii c \<longleftrightarrow> c \<in> set ''ABCDEFGHIJKLMNOPQRSTUVWXYZ''"

definition islower_ascii :: "char \<Rightarrow> bool" where
  "islower_ascii c \<longleftrightarrow> c \<in> set ''abcdefghijklmnopqrstuvwxyz''"

text \<open>\<open>s.strip(chars)\<close>: drop the characters of a class from both ends.\<close>

definition strip_with :: "(char \<Rightarrow> bool) \<Rightarrow> string \<Rightarrow> string" where
  "strip_with P s = rev (dropWhile P (rev (dropWhile P s)))"

definition strip :: "string \<Rightarrow> string" where
  "strip = strip_with isspace"

definition strip_quotes :: "string \<Rightarrow> string" where
  "strip_quotes = strip_with (\<lambda>c. c = CHR 0x22)"

text \<open>\<open>s.split(sep)\<close> for a one-character separator: never an empty list.\<close>

fun split_on :: "char \<Rightarrow> string \<Rightarrow> string list" where
  "split_on sep [] = [[]]"
| "split_on sep (c # cs) =
     (if c = sep then [] # split_on sep cs
      else (case split_on sep cs of
              [] \<Rightarrow> [[c]]
            | w # ws \<Rightarrow> (c # w) # ws))"

text \<open>\<open>s.split(sep, 1)\<close>: cut at the first separator only.\<close>

definition split_max1 :: "char \<Rightarrow> string \<Rightarrow> string list" where
  "split_max1 sep s =
     (case dropWhile (\<lambda>c. c \<noteq> sep) s of
        [] \<Rightarrow> [s]
      | _ # rest \<Rightarrow> [takeWhile (\<lambda>c. c \<noteq> sep) s, rest])"

text \<open>\<open>s.split()\<close> without argument: the maximal runs of non-whitespace characters.\<close>

fun split_ws_from :: "string \<Rightarrow> string \<Rightarrow> string list" where
  "split_ws_from cur [] = (if cur = [] then [] else [rev cur])"
| "split_ws_from cur (c # cs) =
     (if isspace c then (if cur = [] then split_ws_from [] cs else rev cur # split_ws_from [] cs)
      else split_ws_from (c # cur) cs)"

definition split_ws :: "string \<Rightarrow> string list" where
  "split_ws s = split_ws_from [] s"

text \<open>\<open>sub in s\<close>.\<close>

fun contains :: "string \<Rightarrow> string \<Rightarrow> bool" where
  "contains sub [] \<longleftrightarrow> sub = []"
| "contains sub (c # cs) \<longleftrightarrow> take (length sub) (c # cs) = sub \<or> contains sub cs"

text \<open>
  \<open>s.upper()\<close> and \<open>s.lower()\<close> on the ASCII letters. The scripts only test the result for
  the substrings \<open>PON\<close> and \<open>fiberhome\<close>; no code point from 128 to 255 is mapped by Python
  to one of these letters, so leaving those code points unchanged does not change the tests.
\<close>

definition upper_char :: "char \<Rightarrow> char" where
  "upper_char c =
     (case map_of (zip ''abcdefghijklmnopqrstuvwxyz'' ''ABCDEFGHIJKLMNOPQRSTUVWXYZ'') c of
        None \<Rightarrow> c
      | Some u \<Rightarrow> u)"

definition lower_char :: "char \<Rightarrow> char" where
  "lower_char c =
     (case map_of (zip ''ABCDEFGHIJKLMNOPQRSTUVWXYZ'' ''abcdefghijklmnopqrstuvwxyz'') c of
        None \<Rightarrow> c
      | Some l \<Rightarrow> l)"

definition upper :: "string \<Rightarrow> string" where
  "upper = map upper_char"

definition lower :: "string \<Rightarrow> string" where
  "lower = map lower_char"

text \<open>The truth value of \<open>if output:\<close> for a value that is \<open>None\<close> or a string.\<close>

definition truthy :: "string option \<Rightarrow> bool" where
  "truthy output \<longleftrightarrow> (case output of None \<Rightarrow> False | Some s \<Rightarrow> s \<noteq> [])"

section \<open>Regular expressions of the parsers\<close>

text \<open>
  A final \<open>$\<close> matches at the end of the string and before a newline that ends the string.
\<close>

definition before_dollar :: "string \<Rightarrow> string" where
  "before_dollar s = (if s \<noteq> [] \<and> last s = CHR 0x0A then butlast s else s)"

text \<open>A whole string matching \<open>\d+(?:\.\d+)*\<close>, and one matching \<open>\d+\.\d+\<close>.\<close>

definition digit_group :: "string \<Rightarrow> bool" where
  "digit_group g \<longleftrightarrow> g \<noteq> [] \<and> list_all isdigit g"

definition digit_groups :: "string \<Rightarrow> bool" where
  "digit_groups s \<longleftrightarrow> list_all digit_group (split_on CHR ''.'' s)"

definition two_digit_groups :: "string \<Rightarrow> bool" where
  "two_digit_groups s \<longleftrightarrow>
     (case split_on CHR ''.'' s of [a, b] \<Rightarrow> digit_group a \<and> digit_group b | _ \<Rightarrow> False)"

text \<open>
  \<open>re.search(r'\.(\d+(?:\.\d+)*)$', s)\<close> and \<open>re.search(r'\.(\d+\.\d+)$', s)\<close>: the value is
  group 1 of the leftmost match, \<open>None\<close> without a match. The search tries each dot from the
  left; at a dot the rest of the string has to match up to the \<open>$\<close>.
\<close>

fun search_suffix :: "(string \<Rightarrow> bool) \<Rightarrow> string \<Rightarrow> string option" where
  "search_suffix ok [] = None"
| "search_suffix ok (c # cs) =
     (if c = CHR ''.'' \<and> ok (before_dollar cs) then Some (before_dollar cs)
      else search_suffix ok cs)"

definition search_compound :: "string \<Rightarrow> string option" where
  "search_compound = search_suffix digit_groups"

definition search_pair :: "string \<Rightarrow> string option" where
  "search_pair = search_suffix two_digit_groups"

text \<open>
  \<open>re.sub(r'^[A-Za-z\-]+:\s*', '', v)\<close>: a non-empty run of ASCII letters and hyphens at the
  start, then a colon, then any whitespace, is removed; anything else is left as it is.
\<close>

definition tag_char :: "char \<Rightarrow> bool" where
  "tag_char c \<longleftrightarrow> isupper_ascii c \<or> islower_ascii c \<or> c = CHR ''-''"

definition sub_type_tag :: "string \<Rightarrow> string" where
  "sub_type_tag v =
     (case dropWhile tag_char v of
        [] \<Rightarrow> v
      | c # rest \<Rightarrow>
          if takeWhile tag_char v \<noteq> [] \<and> c = CHR '':'' then dropWhile isspace rest else v)"

section \<open>Response parser\<close>

text \<open>
  A Python \<open>dict\<close> keeps its keys in insertion order and a store to a present key replaces
  the value in place: an association list with \<^const>\<open>AList.update\<close>.
\<close>

type_synonym table = "(string \<times> string) list"

definition last_component :: "string \<Rightarrow> string" where
  "last_component oid_part = last (split_on CHR ''.'' oid_part)"

definition index_of :: "(string \<Rightarrow> string option) \<Rightarrow> bool \<Rightarrow> string \<Rightarrow> string" where
  "index_of search full_index oid_part =
     (if full_index then
        (case search oid_part of Some g \<Rightarrow> g | None \<Rightarrow> last_component oid_part)
      else last_component oid_part)"

definition value_of :: "string \<Rightarrow> string" where
  "value_of value_part = strip (strip_quotes (sub_type_tag value_part))"

text \<open>
  One turn of the loop over the lines: \<open>None\<close> for a line that is skipped with
  \<open>continue\<close>, else the index and the value that are stored.
\<close>

definition parse_line :: "(string \<Rightarrow> string option) \<Rightarrow> bool \<Rightarrow> string \<Rightarrow> (string \<times> string) option" where
  "parse_line search full_index line =
     (if CHR ''='' \<notin> set line then None
      else
        (case split_max1 CHR ''='' line of
           [p0, p1] \<Rightarrow> Some (index_of search full_index (strip p0), value_of (strip p1))
         | _ \<Rightarrow> None))"

fun parse_lines :: "(string \<Rightarrow> string option) \<Rightarrow> bool \<Rightarrow> string list \<Rightarrow> table \<Rightarrow> table" where
  "parse_lines search full_index [] data = data"
| "parse_lines search full_index (line # lines) data =
     (case parse_line search full_index line of
        None \<Rightarrow> parse_lines search full_index lines data
      | Some (index, v) \<Rightarrow> parse_lines search full_index lines (AList.update index v data))"

definition parse_with :: "(string \<Rightarrow> string option) \<Rightarrow> string option \<Rightarrow> bool \<Rightarrow> table" where
  "parse_with search output full_index =
     (case output of
        None \<Rightarrow> []
      | Some s \<Rightarrow> if s = [] then [] else parse_lines search full_index (split_on CHR 0x0A (strip s)) [])"

text \<open>
  \<open>parse_snmp_output\<close> of the three scripts. The Huawei and the Fiberhome script search for
  \<open>\.(\d+(?:\.\d+)*)$\<close>, the ZTE script for \<open>\.(\d+\.\d+)$\<close>; the rest is the same text.
\<close>

definition hw_parse_snmp_output :: "string option \<Rightarrow> bool \<Rightarrow> table" where
  "hw_parse_snmp_output = parse_with search_compound"

definition fh_parse_snmp_output :: "string option \<Rightarrow> bool \<Rightarrow> table" where
  "fh_parse_snmp_output = parse_with search_compound"

definition zte_parse_snmp_output :: "string option \<Rightarrow> bool \<Rightarrow> table" where
  "zte_parse_snmp_output = parse_with search_pair"

section \<open>Python integers\<close>

text \<open>
  \<open>int(s)\<close> for a string, base ten: whitespace is dropped at both ends, one sign may lead,
  and single underscores may stand between digits. The whitespace that \<open>int\<close> drops is
  not all of \<open>str.isspace\<close>: the four separators from \<open>0x1C\<close> to \<open>0x1F\<close> are kept and
  make the text invalid. CPython refuses more than \<open>sys.int_max_str_digits\<close> digits (4300
  unless changed). Anything else raises \<open>ValueError\<close>, which is the value \<open>None\<close> here.
\<close>

definition isspace_int :: "char \<Rightarrow> bool" where
  "isspace_int c \<longleftrightarrow> c \<in> set [CHR 0x09, CHR 0x0A, CHR 0x0B, CHR 0x0C, CHR 0x0D,
     CHR 0x20, CHR 0x85, CHR 0xA0]"

definition int_max_str_digits :: nat where
  "int_max_str_digits = 4300"

definition digit_val :: "char \<Rightarrow> nat" where
  "digit_val c = of_char c - 48"

definition decimal :: "string \<Rightarrow> nat" where
  "decimal ds = foldl (\<lambda>n c. 10 * n + digit_val c) 0 ds"

definition py_int :: "string \<Rightarrow> int option" where
  "py_int s =
     (let t = strip_with isspace_int s;
          signed = (t \<noteq> [] \<and> (hd t = CHR ''-'' \<or> hd t = CHR ''+''));
          body = (if signed then tl t else t);
          ds = filter (\<lambda>c. c \<noteq> CHR ''_'') body
      in if list_all digit_group (split_on CHR ''_'' body) \<and> length ds \<le> int_max_str_digits
         then Some (if t \<noteq> [] \<and> hd t = CHR ''-'' then - int (decimal ds) else int (decimal ds))
         else None)"

text \<open>\<open>str(i)\<close> for an integer.\<close>

definition digit_char :: "nat \<Rightarrow> char" where
  "digit_char d = ''0123456789'' ! d"

fun nat_digits :: "nat \<Rightarrow> string" where
  "nat_digits n =
     (if n < 10 then [digit_char n]
      else nat_digits (n div 10) @ [digit_char (n mod 10)])"

declare nat_digits.simps [simp del]

definition py_str :: "int \<Rightarrow> string" where
  "py_str i = (if i < 0 then CHR ''-'' # nat_digits (nat (- i)) else nat_digits (nat i))"

section \<open>Transport\<close>

text \<open>
  \<open>run_snmp_command(ip, oid, walk)\<close> runs \<open>snmpwalk\<close> or \<open>snmpget\<close> and gives the standard
  output, or \<open>None\<close> on a non-zero exit status, a timeout or any exception. The device and
  the network are one function from the three arguments to that result.
\<close>

type_synonym transport = "string \<Rightarrow> string \<Rightarrow> bool \<Rightarrow> string option"

definition OID_SYS_DESCR :: string where "OID_SYS_DESCR = ''1.3.6.1.2.1.1.1.0''"
definition OID_SYS_NAME :: string where "OID_SYS_NAME = ''1.3.6.1.2.1.1.5.0''"
definition OID_IF_TYPE :: string where "OID_IF_TYPE = ''1.3.6.1.2.1.2.2.1.3''"
definition OID_IF_ADMIN_STATUS :: string where "OID_IF_ADMIN_STATUS = ''1.3.6.1.2.1.2.2.1.7''"
definition OID_IF_OPER_STATUS :: string where "OID_IF_OPER_STATUS = ''1.3.6.1.2.1.2.2.1.8''"
definition OID_HW_BOARD_OPER_STATUS :: string where
  "OID_HW_BOARD_OPER_STATUS = ''1.3.6.1.4.1.2011.6.3.3.2.1.7''"
definition OID_HW_ONT_RUN_STATUS :: string where
  "OID_HW_ONT_RUN_STATUS = ''1.3.6.1.4.1.2011.6.128.1.1.2.46.1.15''"
definition OID_ZTE_ONU_STATUS :: string where
  "OID_ZTE_ONU_STATUS = ''1.3.6.1.4.1.3902.1082.500.10.2.3.8.1.4''"
definition OID_FH_CARD_STATUS :: string where
  "OID_FH_CARD_STATUS = ''1.3.6.1.4.1.5875.800.3.9.2.1.1.5''"
definition OID_FH_CARD_TYPE :: string where
  "OID_FH_CARD_TYPE = ''1.3.6.1.4.1.5875.800.3.9.2.1.1.2''"
definition OID_FH_PON_PORT_TYPE :: string where
  "OID_FH_PON_PORT_TYPE = ''1.3.6.1.4.1.5875.800.3.9.3.4.1.1''"
definition OID_FH_PON_PORT_NAME :: string where
  "OID_FH_PON_PORT_NAME = ''1.3.6.1.4.1.5875.800.3.9.3.4.1.2''"
definition OID_FH_ONU_STATUS :: string where
  "OID_FH_ONU_STATUS = ''1.3.6.1.4.1.5875.800.3.10.1.1.11''"

section \<open>Identity of a device\<close>

text \<open>
  \<open>re.search\<close> for a pattern that is given by its match at the start of a string: the
  leftmost position with a match wins, and the value is group 0.
\<close>

fun search_from :: "(string \<Rightarrow> string option) \<Rightarrow> string \<Rightarrow> string option" where
  "search_from m [] = m []"
| "search_from m (c # cs) = (case m (c # cs) of Some g \<Rightarrow> Some g | None \<Rightarrow> search_from m cs)"

text \<open>\<open>MA5800-[^\s]+\<close>\<close>

definition match_ma5800 :: "string \<Rightarrow> string option" where
  "match_ma5800 s =
     (if take 7 s = ''MA5800-'' \<and> takeWhile (\<lambda>c. \<not> isspace c) (drop 7 s) \<noteq> []
      then Some (''MA5800-'' @ takeWhile (\<lambda>c. \<not> isspace c) (drop 7 s)) else None)"

text \<open>\<open>C6[0-2]0\<close> with \<open>re.IGNORECASE\<close>\<close>

definition match_c6x0 :: "string \<Rightarrow> string option" where
  "match_c6x0 s =
     (case s of
        a # b # c # d # _ \<Rightarrow>
          if (a = CHR ''C'' \<or> a = CHR ''c'') \<and> b = CHR ''6'' \<and> c \<in> set ''012'' \<and> d = CHR ''0''
          then Some [a, b, c, d] else None
      | _ \<Rightarrow> None)"

text \<open>\<open>ZXA10[^\s,]+\<close>\<close>

definition match_zxa10 :: "string \<Rightarrow> string option" where
  "match_zxa10 s =
     (if take 5 s = ''ZXA10'' \<and> takeWhile (\<lambda>c. \<not> isspace c \<and> c \<noteq> CHR '','') (drop 5 s) \<noteq> []
      then Some (''ZXA10'' @ takeWhile (\<lambda>c. \<not> isspace c \<and> c \<noteq> CHR '','') (drop 5 s))
      else None)"

text \<open>\<open>AN6000[^\s,]*\<close> with \<open>re.IGNORECASE\<close>\<close>

definition match_an6000 :: "string \<Rightarrow> string option" where
  "match_an6000 s =
     (if lower (take 6 s) = ''an6000''
      then Some (take 6 s @ takeWhile (\<lambda>c. \<not> isspace c \<and> c \<noteq> CHR '','') (drop 6 s))
      else None)"

text \<open>
  The one exception that leaves a function of the scripts: \<open>[0]\<close> on the empty list of
  \<open>split()\<close> in \<open>get_olt_model\<close>.
\<close>

datatype exn = IndexError

fun exn_str :: "exn \<Rightarrow> string" where
  "exn_str IndexError = ''list index out of range''"

definition first_token :: "string \<Rightarrow> exn + string" where
  "first_token s = (case split_ws s of [] \<Rightarrow> Inl IndexError | w # _ \<Rightarrow> Inr w)"

definition hw_get_olt_model :: "transport \<Rightarrow> string \<Rightarrow> exn + string" where
  "hw_get_olt_model run ip =
     (case run ip OID_SYS_DESCR False of
        None \<Rightarrow> Inr ''Unknown''
      | Some output \<Rightarrow>
          if output = [] then Inr ''Unknown''
          else
            (case search_from match_ma5800 output of
               Some m \<Rightarrow> Inr m
             | None \<Rightarrow>
                 (case split_on CHR ''='' output of
                    _ # p1 # _ \<Rightarrow> first_token (strip p1)
                  | _ \<Rightarrow> Inr ''Unknown'')))"

definition zte_get_olt_model :: "transport \<Rightarrow> string \<Rightarrow> exn + string" where
  "zte_get_olt_model run ip =
     (case run ip OID_SYS_DESCR False of
        None \<Rightarrow> Inr ''Unknown''
      | Some output \<Rightarrow>
          if output = [] then Inr ''Unknown''
          else
            (case search_from match_c6x0 output of
               Some m \<Rightarrow> Inr (''ZTE-'' @ m)
             | None \<Rightarrow>
                 (case search_from match_zxa10 output of
                    Some m \<Rightarrow> Inr m
                  | None \<Rightarrow>
                      if contains ''ZXA10'' output \<or> contains ''C600'' output
                         \<or> contains ''C620'' output
                      then Inr ''ZTE-C600'' else Inr ''Unknown'')))"

definition fh_get_olt_model :: "transport \<Rightarrow> string \<Rightarrow> exn + string" where
  "fh_get_olt_model run ip =
     (case run ip OID_SYS_DESCR False of
        None \<Rightarrow> Inr ''Unknown''
      | Some output \<Rightarrow>
          if output = [] then Inr ''Unknown''
          else
            (case search_from match_an6000 output of
               Some m \<Rightarrow> Inr m
             | None \<Rightarrow>
                 if contains ''fiberhome'' (lower output) then
                   (case split_on CHR ''='' output of
                      _ # p1 # _ \<Rightarrow> first_token (strip p1)
                    | _ \<Rightarrow> Inr ''Unknown'')
                 else Inr ''Unknown''))"

text \<open>\<open>get_olt_sysname\<close> is the same text in the three scripts.\<close>

definition get_olt_sysname :: "transport \<Rightarrow> string \<Rightarrow> string" where
  "get_olt_sysname run ip =
     (case run ip OID_SYS_NAME False of
        None \<Rightarrow> ''Unknown''
      | Some output \<Rightarrow>
          if output = [] then ''Unknown''
          else
            (case split_on CHR ''='' output of
               _ # p1 # _ \<Rightarrow> strip (strip_quotes (sub_type_tag (strip p1)))
             | _ \<Rightarrow> ''Unknown''))"

section \<open>Metric methods of the vendor adapters\<close>

text \<open>
  Every method returns the dictionary \<open>{"installed": i, "used": u}\<close> (or \<open>"online"\<close>), here
  the pair \<open>(i, u)\<close>. Every method wraps its body in \<open>try\<close> with an \<open>except Exception\<close> that
  returns the two zeros. The operations of the bodies, on the strings and tables of this
  model, do not raise: the transport returns \<open>None\<close> instead, the string methods and
  the regular expressions are total, \<open>split(...)[-1]\<close> reads a list that is never empty, a
  table is read with \<open>get\<close> or at a key that is being iterated, and \<open>int\<close> sits inside
  the \<open>try\<close> of \<open>decode_zte_ifindex\<close>. So each method is its body.
\<close>

definition count_eq :: "string \<Rightarrow> table \<Rightarrow> nat" where
  "count_eq v t = length (filter (\<lambda>status. status = v) (map snd t))"

subsection \<open>Huawei\<close>

definition hw_get_board_status :: "transport \<Rightarrow> string \<Rightarrow> nat \<times> nat" where
  "hw_get_board_status run ip =
     (let oper_output = run ip OID_HW_BOARD_OPER_STATUS True in
      if truthy oper_output then
        (let oper_status = hw_parse_snmp_output oper_output False;
             installed = length oper_status;
             used = count_eq ''0'' oper_status
         in if installed > 0 then (installed, used) else (0, 0))
      else (0, 0))"

text \<open>
  The loop \<open>for idx in types\<close> with its two counters; \<open>types[idx]\<close> is the value stored with
  the key of the iteration.
\<close>

fun pon_loop :: "table \<Rightarrow> table \<Rightarrow> nat \<times> nat \<Rightarrow> nat \<times> nat" where
  "pon_loop [] oper_status (installed, used) = (installed, used)"
| "pon_loop ((idx, iftype) # items) oper_status (installed, used) =
     (if iftype = ''250''
      then pon_loop items oper_status
             (installed + 1, if map_of oper_status idx = Some ''1'' then used + 1 else used)
      else pon_loop items oper_status (installed, used))"

definition hw_get_pon_port_status :: "transport \<Rightarrow> string \<Rightarrow> nat \<times> nat" where
  "hw_get_pon_port_status run ip =
     (let type_output = run ip OID_IF_TYPE True;
          oper_output = run ip OID_IF_OPER_STATUS True
      in if \<not> truthy type_output \<or> \<not> truthy oper_output then (0, 0)
         else
           (let types = hw_parse_snmp_output type_output False;
                oper_status = hw_parse_snmp_output oper_output False
            in pon_loop types oper_status (0, 0)))"

definition hw_get_ont_status :: "transport \<Rightarrow> string \<Rightarrow> nat \<times> nat" where
  "hw_get_ont_status run ip =
     (let ont_output = run ip OID_HW_ONT_RUN_STATUS True in
      if \<not> truthy ont_output then (0, 0)
      else
        (let statuses = hw_parse_snmp_output ont_output True;
             installed = length statuses;
             online = count_eq ''1'' statuses
         in (installed, online)))"

subsection \<open>ZTE\<close>

definition decode_zte_ifindex :: "string \<Rightarrow> string option" where
  "decode_zte_ifindex ifindex =
     (case py_int ifindex of
        None \<Rightarrow> None
      | Some idx \<Rightarrow> Some (py_str (drop_bit 8 idx AND 0xFF)))"

text \<open>
  The loop over \<open>types.items()\<close> with the two sets \<open>cards\<close> and \<open>active_cards\<close>, kept as
  lists without repetition; \<open>len\<close> of a set is the length of its list.
\<close>

fun board_loop :: "table \<Rightarrow> table \<Rightarrow> string list \<times> string list \<Rightarrow> string list \<times> string list" where
  "board_loop [] admin_status (cards, active_cards) = (cards, active_cards)"
| "board_loop ((idx, iftype) # items) admin_status (cards, active_cards) =
     (if iftype = ''250'' then
        (case decode_zte_ifindex idx of
           None \<Rightarrow> board_loop items admin_status (cards, active_cards)
         | Some slot \<Rightarrow>
             if slot = [] then board_loop items admin_status (cards, active_cards)
             else board_loop items admin_status
                    (List.insert slot cards,
                     if map_of admin_status idx = Some ''1'' then List.insert slot active_cards
                     else active_cards))
      else board_loop items admin_status (cards, active_cards))"

definition zte_get_board_status :: "transport \<Rightarrow> string \<Rightarrow> nat \<times> nat" where
  "zte_get_board_status run ip =
     (let type_output = run ip OID_IF_TYPE True;
          admin_output = run ip OID_IF_ADMIN_STATUS True
      in if \<not> truthy type_output then (0, 0)
         else
           (let types = zte_parse_snmp_output type_output False;
                admin_status =
                  (if truthy admin_output then zte_parse_snmp_output admin_output False else []);
                (cards, active_cards) = board_loop types admin_status ([], []);
                installed = length cards;
                used = length active_cards
            in if installed > 0 then (installed, used) else (0, 0)))"

definition zte_get_pon_port_status :: "transport \<Rightarrow> string \<Rightarrow> nat \<times> nat" where
  "zte_get_pon_port_status run ip =
     (let type_output = run ip OID_IF_TYPE True;
          oper_output = run ip OID_IF_OPER_STATUS True
      in if \<not> truthy type_output \<or> \<not> truthy oper_output then (0, 0)
         else
           (let types = zte_parse_snmp_output type_output False;
                oper_status = zte_parse_snmp_output oper_output False
            in pon_loop types oper_status (0, 0)))"

definition online_statuses :: "string list" where
  "online_statuses = [''1'', ''3'', ''4'']"

definition zte_get_ont_status :: "transport \<Rightarrow> string \<Rightarrow> nat \<times> nat" where
  "zte_get_ont_status run ip =
     (let onu_output = run ip OID_ZTE_ONU_STATUS True in
      if \<not> truthy onu_output then (0, 0)
      else
        (let statuses = zte_parse_snmp_output onu_output True;
             installed = length statuses;
             online = length (filter (\<lambda>status. status \<in> set online_statuses) (map snd statuses))
         in (installed, online)))"

subsection \<open>Fiberhome\<close>

definition fh_card_type_fallback :: "transport \<Rightarrow> string \<Rightarrow> nat \<times> nat" where
  "fh_card_type_fallback run ip =
     (let type_output = run ip OID_FH_CARD_TYPE True in
      if truthy type_output then
        (let types = fh_parse_snmp_output type_output False;
             installed = length types;
             used = installed
         in (installed, used))
      else (0, 0))"

definition fh_get_board_status :: "transport \<Rightarrow> string \<Rightarrow> nat \<times> nat" where
  "fh_get_board_status run ip =
     (let status_output = run ip OID_FH_CARD_STATUS True in
      if truthy status_output then
        (let statuses = fh_parse_snmp_output status_output False;
             installed = length statuses;
             used = count_eq ''1'' statuses
         in if installed > 0 then (installed, used) else fh_card_type_fallback run ip)
      else fh_card_type_fallback run ip)"

definition fh_get_pon_port_status :: "transport \<Rightarrow> string \<Rightarrow> nat \<times> nat" where
  "fh_get_pon_port_status run ip =
     (let type_output = run ip OID_FH_PON_PORT_TYPE True in
      if \<not> truthy type_output then (0, 0)
      else
        (let types = fh_parse_snmp_output type_output False;
             installed = count_eq ''1'' types;
             name_output = run ip OID_FH_PON_PORT_NAME True;
             used =
               (if truthy name_output then
                  length (filter (\<lambda>v. v \<noteq> [] \<and> contains ''PON'' (upper v))
                            (map snd (fh_parse_snmp_output name_output False)))
                else installed)
         in (installed, used)))"

definition fh_get_onu_status :: "transport \<Rightarrow> string \<Rightarrow> nat \<times> nat" where
  "fh_get_onu_status run ip =
     (let onu_status_output = run ip OID_FH_ONU_STATUS True in
      if \<not> truthy onu_status_output then (0, 0)
      else
        (let statuses = fh_parse_snmp_output onu_status_output False;
             installed = length (filter (\<lambda>v. v \<noteq> ''0'') (map snd statuses));
             online = length (filter (\<lambda>v. v = ''1'') (map snd statuses))
         in (installed, online)))"

section \<open>Device orchestrator\<close>

text \<open>
  The result dictionary of \<open>collect_olt_data\<close>. A key that a dictionary may lack has an
  optional value: the dictionary that \<open>main\<close> builds for a failed task has the keys
  \<open>ip\<close>, \<open>status\<close> and \<open>error\<close> only. The Fiberhome script names the last two
  counters \<open>onu_installed\<close> and \<open>onu_online\<close>; they are the fields \<open>ont_installed\<close> and
  \<open>ont_online\<close> here.
\<close>

record olt_result =
  ip :: string
  sysname :: "string option"
  model :: "string option"
  board_installed :: "nat option"
  board_used :: "nat option"
  pon_port_installed :: "nat option"
  pon_port_used :: "nat option"
  ont_installed :: "nat option"
  ont_online :: "nat option"
  status :: string
  error :: string

definition initial_result :: "string \<Rightarrow> olt_result" where
  "initial_result addr =
     \<lparr>ip = addr, sysname = Some [], model = Some [],
      board_installed = Some 0, board_used = Some 0,
      pon_port_installed = Some 0, pon_port_used = Some 0,
      ont_installed = Some 0, ont_online = Some 0,
      status = ''error'', error = []\<rparr>"

text \<open>
  The body of \<open>collect_olt_data\<close> after the probe has answered, with the identity and the
  three metric methods of one vendor. The name is stored before the model is asked for, so
  an exception of \<open>get_olt_model\<close> leaves the name in the record; the \<open>except\<close> of
  \<open>collect_olt_data\<close> stores \<open>str(e)\<close> and the status stays \<open>error\<close>.
\<close>

definition collect_metrics ::
  "string \<Rightarrow> exn + string \<Rightarrow> nat \<times> nat \<Rightarrow> nat \<times> nat \<Rightarrow> nat \<times> nat \<Rightarrow> olt_result \<Rightarrow> olt_result"
where
  "collect_metrics name model_result board_status pon_status ont_status result =
     (let result = result\<lparr>sysname := Some name\<rparr> in
      case model_result of
        Inl e \<Rightarrow> result\<lparr>error := exn_str e\<rparr>
      | Inr m \<Rightarrow>
          result\<lparr>model := Some m,
                 board_installed := Some (fst board_status), board_used := Some (snd board_status),
                 pon_port_installed := Some (fst pon_status), pon_port_used := Some (snd pon_status),
                 ont_installed := Some (fst ont_status), ont_online := Some (snd ont_status),
                 status := ''OK''\<rparr>)"

definition hw_collect_olt_data :: "transport \<Rightarrow> string \<Rightarrow> olt_result" where
  "hw_collect_olt_data run addr =
     (let result = initial_result addr;
          test = run addr OID_SYS_DESCR False
      in if \<not> truthy test then result\<lparr>error := ''timeout/unreachable''\<rparr>
         else collect_metrics (get_olt_sysname run addr) (hw_get_olt_model run addr)
                (hw_get_board_status run addr) (hw_get_pon_port_status run addr)
                (hw_get_ont_status run addr) result)"

definition zte_collect_olt_data :: "transport \<Rightarrow> string \<Rightarrow> olt_result" where
  "zte_collect_olt_data run addr =
     (let result = initial_result addr;
          test = run addr OID_SYS_DESCR False
      in if \<not> truthy test then result\<lparr>error := ''timeout/unreachable''\<rparr>
         else collect_metrics (get_olt_sysname run addr) (zte_get_olt_model run addr)
                (zte_get_board_status run addr) (zte_get_pon_port_status run addr)
                (zte_get_ont_status run addr) result)"

definition fh_collect_olt_data :: "transport \<Rightarrow> string \<Rightarrow> olt_result" where
  "fh_collect_olt_data run addr =
     (let result = initial_result addr;
          test = run addr OID_SYS_DESCR False
      in if \<not> truthy test then result\<lparr>error := ''timeout/unreachable''\<rparr>
         else collect_metrics (get_olt_sysname run addr) (fh_get_olt_model run addr)
                (fh_get_board_status run addr) (fh_get_pon_port_status run addr)
                (fh_get_onu_status run addr) result)"

section \<open>Fleet aggregator\<close>

text \<open>
  \<open>main\<close> submits one task per address of \<open>list(set(ip_list))\<close> and appends the results in
  the order in which the tasks complete. That order is an argument of the model: a list
  with the addresses of the input, each once. \<open>future.result()\<close> gives what the task
  returned or raises what it raised; \<open>collect_olt_data\<close> catches its exceptions and
  returns its record. For a task that raised, \<open>main\<close> appends a dictionary with the three
  keys \<open>ip\<close>, \<open>status\<close> and \<open>error\<close>.
\<close>

definition completion_order :: "string list \<Rightarrow> string list \<Rightarrow> bool" where
  "completion_order ip_list completed \<longleftrightarrow> distinct completed \<and> set completed = set ip_list"

definition future_result :: "(string \<Rightarrow> olt_result) \<Rightarrow> string \<Rightarrow> exn + olt_result" where
  "future_result collect addr = Inr (collect addr)"

definition failed_task :: "string \<Rightarrow> exn \<Rightarrow> olt_result" where
  "failed_task addr e =
     \<lparr>ip = addr, sysname = None, model = None,
      board_installed = None, board_used = None,
      pon_port_installed = None, pon_port_used = None,
      ont_installed = None, ont_online = None,
      status = ''error'', error = exn_str e\<rparr>"

definition gather :: "(string \<Rightarrow> olt_result) \<Rightarrow> string list \<Rightarrow> olt_result list" where
  "gather collect completed =
     map (\<lambda>addr. case future_result collect addr of
                    Inr r \<Rightarrow> r
                  | Inl e \<Rightarrow> failed_task addr e) completed"

text \<open>\<open>r.get(key, 0)\<close>\<close>

definition get0 :: "nat option \<Rightarrow> nat" where
  "get0 v = (case v of None \<Rightarrow> 0 | Some n \<Rightarrow> n)"

definition total_ok :: "(olt_result \<Rightarrow> nat option) \<Rightarrow> olt_result list \<Rightarrow> nat" where
  "total_ok field results =
     sum_list (map (\<lambda>r. get0 (field r)) (filter (\<lambda>r. status r = ''OK'') results))"

record fleet_summary =
  total :: nat
  success :: nat
  failed :: nat
  total_board_installed :: nat
  total_board_used :: nat
  total_pon_installed :: nat
  total_pon_used :: nat
  total_ont_installed :: nat
  total_ont_online :: nat

definition summary :: "olt_result list \<Rightarrow> fleet_summary" where
  "summary results =
     (let total = length results;
          success = length (filter (\<lambda>r. status r = ''OK'') results)
      in \<lparr>total = total, success = success, failed = total - success,
          total_board_installed = total_ok board_installed results,
          total_board_used = total_ok board_used results,
          total_pon_installed = total_ok pon_port_installed results,
          total_pon_used = total_ok pon_port_used results,
          total_ont_installed = total_ok ont_installed results,
          total_ont_online = total_ok ont_online results\<rparr>)"

text \<open>
  \<open>pd.DataFrame(results).sort_values('ip')\<close>: the records in ascending order of the address,
  strings compared character by character. \<open>main\<close> stops before any polling when the list
  of addresses is empty; otherwise its value in this model is the sorted sequence and the
  summary.
\<close>

definition sort_values_ip :: "olt_result list \<Rightarrow> olt_result list" where
  "sort_values_ip results = sort_key ip results"

definition main ::
  "(string \<Rightarrow> olt_result) \<Rightarrow> string list \<Rightarrow> (olt_result list \<times> fleet_summary) option"
where
  "main collect completed =
     (if completed = [] then None
      else
        (let results = gather collect completed
         in Some (sort_values_ip results, summary results)))"

definition hw_main :: "transport \<Rightarrow> string list \<Rightarrow> (olt_result list \<times> fleet_summary) option" where
  "hw_main run = main (hw_collect_olt_data run)"

definition zte_main :: "transport \<Rightarrow> string list \<Rightarrow> (olt_result list \<times> fleet_summary) option" where
  "zte_main run = main (zte_collect_olt_data run)"

definition fh_main :: "transport \<Rightarrow> string list \<Rightarrow> (olt_result list \<times> fleet_summary) option" where
  "fh_main run = main (fh_collect_olt_data run)"

section \<open>Index modes, in the words of the specification\<close>

text \<open>
  The identifier part of a line is the text before its first \<open>=\<close>, stripped. A trailing
  run of an identifier is a text of digit groups separated by dots that ends the
  identifier and follows a dot; the longest one is the index the specification describes
  for the full compound mode. A trailing pair is a trailing run of exactly two groups.
\<close>

definition oid_part_of :: "string \<Rightarrow> string" where
  "oid_part_of line = strip (takeWhile (\<lambda>c. c \<noteq> CHR ''='') line)"

definition trailing_run :: "string \<Rightarrow> string \<Rightarrow> bool" where
  "trailing_run oid_part t \<longleftrightarrow> digit_groups t \<and> suffix (CHR ''.'' # t) oid_part"

definition longest_trailing_run :: "string \<Rightarrow> string \<Rightarrow> bool" where
  "longest_trailing_run oid_part t \<longleftrightarrow>
     trailing_run oid_part t \<and> (\<forall>u. trailing_run oid_part u \<longrightarrow> length u \<le> length t)"

definition trailing_pair :: "string \<Rightarrow> string \<Rightarrow> bool" where
  "trailing_pair oid_part t \<longleftrightarrow> two_digit_groups t \<and> suffix (CHR ''.'' # t) oid_part"

definition example_tail :: string where
  "example_tail = ''ponOnuStatus.285278465.1''"

text \<open>
  A line as \<open>snmpwalk\<close> prints it when the identifier is not translated by a MIB.
\<close>

definition numeric_line :: string where
  "numeric_line =
     ''SNMPv2-SMI::enterprises.3902.1082.500.10.2.3.8.1.4.285278465.1 = INTEGER: 4''"

section \<open>Sample devices\<close>


definition probe_only_device :: transport where
  "probe_only_device addr oid walk =
     (if oid = OID_SYS_DESCR \<and> \<not> walk
      then Some ''SNMPv2-MIB::sysDescr.0 = STRING: ZXA10 C600, ZTE ZXA10 Software Version: V1.2.2''
      else None)"



text \<open>Seven subscriber units of a ZTE device, one in each status from 1 to 7.\<close>

definition zte_onu_device :: transport where
  "zte_onu_device addr oid walk =
     (if oid = OID_ZTE_ONU_STATUS \<and> walk then
        Some (''onu.285278465.1 = INTEGER: 1\<newline>'' @ ''onu.285278465.2 = INTEGER: 2\<newline>''
              @ ''onu.285278465.3 = INTEGER: 3\<newline>'' @ ''onu.285278465.4 = INTEGER: 4\<newline>''
              @ ''onu.285278465.5 = INTEGER: 5\<newline>'' @ ''onu.285278465.6 = INTEGER: 6\<newline>''
              @ ''onu.285278465.7 = INTEGER: 7\<newline>'')
      else None)"

text \<open>Four subscriber units of a Fiberhome device, in the status 0, 1, 2 and 3.\<close>

definition fh_onu_device :: transport where
  "fh_onu_device addr oid walk =
     (if oid = OID_FH_ONU_STATUS \<and> walk then
        Some (''onu.1 = INTEGER: 0\<newline>'' @ ''onu.2 = INTEGER: 1\<newline>''
              @ ''onu.3 = INTEGER: 2\<newline>'' @ ''onu.4 = INTEGER: 3\<newline>'')
      else None)"

text \<open>
  A Fiberhome device with one port of type 2 in the port type table and one name with
  \<open>PON\<close> in the port name table.
\<close>

definition fh_pon_device :: transport where
  "fh_pon_device addr oid walk =
     (if oid = OID_FH_PON_PORT_TYPE \<and> walk then Some ''portType.1 = INTEGER: 2''
      else if oid = OID_FH_PON_PORT_NAME \<and> walk
      then Some (''portName.1 = STRING: '' @ [CHR 0x22] @ ''PON 1/1'' @ [CHR 0x22])
      else None)"


text \<open>
  Three addresses: the second does not answer, the others answer the probe, and the first
  has a board table with one board in the status 0 and one in the status 1.
\<close>

definition fleet :: transport where
  "fleet addr oid walk =
     (if addr = ''10.0.0.2'' then None
      else if addr = ''10.0.0.1'' \<and> oid = OID_HW_BOARD_OPER_STATUS \<and> walk
      then Some (''board.1 = INTEGER: 0\<newline>'' @ ''board.2 = INTEGER: 1\<newline>'')
      else probe_only_device addr oid walk)"

text \<open>
  Four records as \<open>main\<close> may collect them: two with the status \<open>OK\<close>, one that failed
  after its counters were set, and one with the three keys of a failed task.
\<close>

definition sample_results :: "olt_result list" where
  "sample_results =
     [\<lparr>ip = ''10.0.0.1'', sysname = Some ''OLT-A'', model = Some ''MA5800-X17'',
       board_installed = Some 4, board_used = Some 3,
       pon_port_installed = Some 32, pon_port_used = Some 20,
       ont_installed = Some 500, ont_online = Some 450, status = ''OK'', error = []\<rparr>,
      \<lparr>ip = ''10.0.0.2'', sysname = Some ''OLT-B'', model = Some [],
       board_installed = Some 9, board_used = Some 9,
       pon_port_installed = Some 9, pon_port_used = Some 9,
       ont_installed = Some 9, ont_online = Some 9, status = ''error'',
       error = ''list index out of range''\<rparr>,
      \<lparr>ip = ''10.0.0.3'', sysname = None, model = None,
       board_installed = None, board_used = None,
       pon_port_installed = None, pon_port_used = None,
       ont_installed = None, ont_online = None, status = ''error'', error = ''failed''\<rparr>,
      \<lparr>ip = ''10.0.0.4'', sysname = Some ''OLT-D'', model = Some ''MA5800-X7'',
       board_installed = Some 2, board_used = Some 2,
       pon_port_installed = Some 16, pon_port_used = Some 8,
       ont_installed = Some 100, ont_online = Some 90, status = ''OK'', error = []\<rparr>]"

section \<open>Lemmas on strings and on the regular expressions\<close>

lemmas str_eval = strip_def strip_with_def isspace_def isdigit_def digit_group_def digit_groups_def
  two_digit_groups_def before_dollar_def split_max1_def index_of_def value_of_def sub_type_tag_def
  tag_char_def isupper_ascii_def islower_ascii_def strip_quotes_def last_component_def
  search_compound_def search_pair_def parse_line_def parse_with_def truthy_def

lemmas int_eval = py_int_def py_str_def int_max_str_digits_def decimal_def digit_val_def
  nat_digits.simps digit_char_def drop_bit_eq_div decode_zte_ifindex_def isspace_int_def

lemma split_on_not_Nil [simp]: "split_on sep s \<noteq> []"
  by (induction s) (auto split: list.splits)

lemma length_split_on: "length (split_on sep s) = Suc (length (filter (\<lambda>c. c = sep) s))"
  by (induction s) (auto split: list.splits)

lemma split_on_append_sep:
  "sep \<notin> set a \<Longrightarrow> split_on sep (a @ sep # b) = a # split_on sep b"
  by (induction a) (auto split: list.splits)

lemma split_on_no_sep: "sep \<notin> set a \<Longrightarrow> split_on sep a = [a]"
  by (induction a) (auto split: list.splits)

lemma split_on_Cons_Cons:
  "split_on sep s = x # y # ys \<Longrightarrow> \<exists>r. s = x @ sep # r \<and> sep \<notin> set x \<and> split_on sep r = y # ys"
proof (induction s arbitrary: x)
  case Nil
  then show ?case by simp
next
  case (Cons c cs)
  show ?case
  proof (cases "c = sep")
    case True
    with Cons.prems show ?thesis by auto
  next
    case False
    with Cons.prems obtain w where w: "split_on sep cs = w # y # ys" "x = c # w"
      by (auto split: list.splits)
    from Cons.IH[OF w(1)] obtain r where "cs = w @ sep # r" "sep \<notin> set w" "split_on sep r = y # ys"
      by blast
    with w False show ?thesis by auto
  qed
qed

lemma split_on_single: "split_on sep s = [x] \<Longrightarrow> x = s \<and> sep \<notin> set s"
proof (induction s arbitrary: x)
  case Nil
  then show ?case by simp
next
  case (Cons c cs)
  then show ?case by (auto split: if_splits list.splits)
qed


lemma two_digit_groups_split:
  "two_digit_groups t \<longleftrightarrow>
     (\<exists>a b. split_on CHR ''.'' t = [a, b] \<and> digit_group a \<and> digit_group b)"
proof (cases "split_on CHR ''.'' t")
  case Nil
  then show ?thesis by simp
next
  case (Cons a r)
  note outer = Cons
  show ?thesis
  proof (cases r)
    case Nil
    with outer show ?thesis by (simp add: two_digit_groups_def)
  next
    case (Cons b r')
    with outer show ?thesis by (cases r') (simp_all add: two_digit_groups_def)
  qed
qed

lemma isdigit_dot: "\<not> isdigit CHR ''.''"
  by (simp add: isdigit_def)

lemma digit_group_no_dot: "digit_group g \<Longrightarrow> CHR ''.'' \<notin> set g"
  unfolding digit_group_def list_all_iff using isdigit_dot by blast

lemma two_digit_groups_iff:
  "two_digit_groups t \<longleftrightarrow>
     (\<exists>a b. t = a @ CHR ''.'' # b \<and> digit_group a \<and> digit_group b)"
proof
  assume "two_digit_groups t"
  then obtain a b where ab: "split_on CHR ''.'' t = [a, b]" "digit_group a" "digit_group b"
    unfolding two_digit_groups_split by blast
  from split_on_Cons_Cons[OF ab(1)] obtain r where r: "t = a @ CHR ''.'' # r" "split_on CHR ''.'' r = [b]"
    by blast
  from split_on_single[OF r(2)] have "b = r" by simp
  with r ab show "\<exists>a b. t = a @ CHR ''.'' # b \<and> digit_group a \<and> digit_group b" by blast
next
  assume "\<exists>a b. t = a @ CHR ''.'' # b \<and> digit_group a \<and> digit_group b"
  then obtain a b where ab: "t = a @ CHR ''.'' # b" "digit_group a" "digit_group b" by blast
  have "split_on CHR ''.'' t = [a, b]"
    by (simp add: ab(1) split_on_append_sep split_on_no_sep digit_group_no_dot[OF ab(2)]
        digit_group_no_dot[OF ab(3)])
  with ab show "two_digit_groups t" unfolding two_digit_groups_split by blast
qed

lemma two_digit_groups_imp_digit_groups: "two_digit_groups t \<Longrightarrow> digit_groups t"
  unfolding two_digit_groups_split digit_groups_def by auto

lemma two_digit_groups_one_dot:
  "two_digit_groups t \<Longrightarrow> length (filter (\<lambda>c. c = CHR ''.'') t) = 1"
proof -
  assume "two_digit_groups t"
  then have "length (split_on CHR ''.'' t) = 2"
    unfolding two_digit_groups_split by auto
  then show ?thesis by (simp add: length_split_on)
qed

lemma search_suffix_Some:
  "search_suffix ok s = Some t \<Longrightarrow>
   \<exists>p u. s = p @ CHR ''.'' # u \<and> t = before_dollar u \<and> ok t \<and>
     (\<forall>p' u'. s = p' @ CHR ''.'' # u' \<and> ok (before_dollar u') \<longrightarrow> length p \<le> length p')"
proof (induction s)
  case Nil
  then show ?case by simp
next
  case (Cons c cs)
  show ?case
  proof (cases "c = CHR ''.'' \<and> ok (before_dollar cs)")
    case True
    with Cons.prems have "t = before_dollar cs" by simp
    with True have "c # cs = [] @ CHR ''.'' # cs \<and> t = before_dollar cs \<and> ok t" by simp
    then show ?thesis by (metis length_0_conv le0 list.size(3))
  next
    case False
    with Cons.prems have "search_suffix ok cs = Some t" by auto
    from Cons.IH[OF this] obtain p u where pu: "cs = p @ CHR ''.'' # u" "t = before_dollar u" "ok t"
      and least: "\<And>p' u'. cs = p' @ CHR ''.'' # u' \<Longrightarrow> ok (before_dollar u') \<Longrightarrow> length p \<le> length p'"
      by blast
    have "length (c # p) \<le> length p'" if "c # cs = p' @ CHR ''.'' # u'" "ok (before_dollar u')" for p' u'
    proof (cases p')
      case Nil
      with that False show ?thesis by simp
    next
      case (Cons d p'')
      with that have "cs = p'' @ CHR ''.'' # u'" by simp
      from least[OF this that(2)] Cons show ?thesis by simp
    qed
    with pu show ?thesis
      by (metis append_Cons)
  qed
qed

lemma search_suffix_None:
  "search_suffix ok s = None \<Longrightarrow> s = p @ CHR ''.'' # u \<Longrightarrow> \<not> ok (before_dollar u)"
proof (induction s arbitrary: p)
  case Nil
  then show ?case by simp
next
  case (Cons c cs)
  then show ?case by (cases p) (auto split: if_splits)
qed

lemma in_split_on:
  "c \<in> set s \<Longrightarrow> c \<noteq> sep \<Longrightarrow> \<exists>g \<in> set (split_on sep s). c \<in> set g"
proof (induction s)
  case Nil
  then show ?case by simp
next
  case (Cons d ds)
  show ?case
  proof (cases "d = sep")
    case True
    with Cons show ?thesis by auto
  next
    case False
    obtain w ws where w: "split_on sep ds = w # ws"
      by (cases "split_on sep ds") auto
    show ?thesis
    proof (cases "c = d")
      case True
      with False w show ?thesis by simp
    next
      case cd: False
      with Cons.prems have "c \<in> set ds" by simp
      from Cons.IH[OF this Cons.prems(2)] obtain g where "g \<in> set (w # ws)" "c \<in> set g"
        using w by auto
      with False w show ?thesis by auto
    qed
  qed
qed

lemma digit_groups_chars:
  assumes "digit_groups s" "c \<in> set s"
  shows "isdigit c \<or> c = CHR ''.''"
proof (cases "c = CHR ''.''")
  case True
  then show ?thesis by simp
next
  case False
  from in_split_on[OF assms(2) False] obtain g where "g \<in> set (split_on CHR ''.'' s)" "c \<in> set g"
    by blast
  with assms(1) show ?thesis by (auto simp: digit_groups_def digit_group_def list_all_iff)
qed

lemma search_suffix_skip:
  "(\<And>u. \<not> ok (before_dollar (u @ s))) \<Longrightarrow> search_suffix ok (p @ s) = search_suffix ok s"
  by (induction p) auto

lemma isspace_newline: "isspace (CHR 0x0A)"
  by (simp add: isspace_def)

lemma strip_with_last: "strip_with P s \<noteq> [] \<Longrightarrow> \<not> P (last (strip_with P s))"
proof -
  assume ne: "strip_with P s \<noteq> []"
  let ?y = "dropWhile P (rev (dropWhile P s))"
  from ne have "?y \<noteq> []" by (simp add: strip_with_def)
  then have "\<not> P (hd ?y)" by (rule hd_dropWhile)
  moreover have "last (strip_with P s) = hd ?y"
    using \<open>?y \<noteq> []\<close> by (simp add: strip_with_def last_rev)
  ultimately show ?thesis by simp
qed

lemma before_dollar_suffix_strip: "suffix u (strip s) \<Longrightarrow> before_dollar u = u"
proof (cases "u = []")
  case True
  then show ?thesis by (simp add: before_dollar_def)
next
  case False
  assume "suffix u (strip s)"
  then obtain p where p: "strip s = p @ u" by (auto simp: suffix_def)
  with False have "last u = last (strip s)" by simp
  moreover have "\<not> isspace (last (strip s))"
    using strip_with_last[of isspace s] p False by (simp add: strip_def)
  ultimately have "last u \<noteq> CHR 0x0A" using isspace_newline by metis
  then show ?thesis by (simp add: before_dollar_def)
qed

lemma isdigit_not_space: "isdigit c \<Longrightarrow> \<not> isspace_int c"
  unfolding isdigit_def isspace_int_def by auto

lemma isdigit_not_sign: "isdigit c \<Longrightarrow> c \<noteq> CHR ''-'' \<and> c \<noteq> CHR ''+'' \<and> c \<noteq> CHR ''_''"
  unfolding isdigit_def by auto

lemma in_dropWhile: "c \<in> set s \<Longrightarrow> \<not> P c \<Longrightarrow> c \<in> set (dropWhile P s)"
  by (induction s) auto

lemma in_strip_with: "c \<in> set s \<Longrightarrow> \<not> P c \<Longrightarrow> c \<in> set (strip_with P s)"
  by (simp add: strip_with_def in_dropWhile)

lemma dropWhile_hd: "xs \<noteq> [] \<Longrightarrow> \<not> P (hd xs) \<Longrightarrow> dropWhile P xs = xs"
  by (cases xs) auto

lemma strip_with_id: "s \<noteq> [] \<Longrightarrow> \<not> P (hd s) \<Longrightarrow> \<not> P (last s) \<Longrightarrow> strip_with P s = s"
proof -
  assume a: "s \<noteq> []" "\<not> P (hd s)" "\<not> P (last s)"
  then have 1: "dropWhile P s = s" by (simp add: dropWhile_hd)
  from a have "rev s \<noteq> []" "\<not> P (hd (rev s))" by (simp_all add: hd_rev)
  then have 2: "dropWhile P (rev s) = rev s" by (rule dropWhile_hd)
  show ?thesis by (simp add: strip_with_def 1 2)
qed

lemma append_eq_longer:
  "p @ x = q @ y \<Longrightarrow> length p < length q \<Longrightarrow> \<exists>r. r \<noteq> [] \<and> q = p @ r \<and> x = r @ y"
  by (auto simp: append_eq_append_conv2)

lemma append_sep_longer:
  assumes "p @ c # t = q @ c # u" "length p < length q"
  shows "\<exists>r. q = p @ c # r"
proof -
  from append_eq_longer[OF assms] obtain r where r: "r \<noteq> []" "q = p @ r" "c # t = r @ c # u"
    by blast
  then obtain r' where "r = c # r'" by (cases r) auto
  with r show ?thesis by simp
qed

section \<open>Lemmas on the parser\<close>

lemma parse_with_falsy: "\<not> truthy output \<Longrightarrow> parse_with search output full_index = []"
  by (auto simp: truthy_def parse_with_def split: option.splits)

lemma distinct_parse_lines:
  "distinct (map fst data) \<Longrightarrow> distinct (map fst (parse_lines search full_index lines data))"
  by (induction lines arbitrary: data) (auto simp: distinct_update split: option.splits)

lemma distinct_parse_with: "distinct (map fst (parse_with search output full_index))"
  by (simp add: parse_with_def distinct_parse_lines split: option.splits)

lemma parse_line_eq:
  "CHR ''='' \<in> set line \<Longrightarrow>
   parse_line search full_index line =
     Some (index_of search full_index (strip (takeWhile (\<lambda>c. c \<noteq> CHR ''='') line)),
           value_of (strip (tl (dropWhile (\<lambda>c. c \<noteq> CHR ''='') line))))"
proof -
  assume "CHR ''='' \<in> set line"
  then have "dropWhile (\<lambda>c. c \<noteq> CHR ''='') line \<noteq> []"
    by (simp add: dropWhile_eq_Nil_conv)
  then obtain d rest where "dropWhile (\<lambda>c. c \<noteq> CHR ''='') line = d # rest"
    by (cases "dropWhile (\<lambda>c. c \<noteq> CHR ''='') line") auto
  with \<open>CHR ''='' \<in> set line\<close> show ?thesis
    by (simp add: parse_line_def split_max1_def)
qed

lemma search_compound_Some:
  assumes "search_compound (strip s) = Some t"
  shows "longest_trailing_run (strip s) t"
proof -
  from search_suffix_Some[OF assms[unfolded search_compound_def]]
  obtain p u where pu: "strip s = p @ CHR ''.'' # u" "t = before_dollar u" "digit_groups t"
    and least: "\<And>p' u'. strip s = p' @ CHR ''.'' # u' \<Longrightarrow> digit_groups (before_dollar u') \<Longrightarrow> length p \<le> length p'"
    by blast
  have "suffix u (strip s)" using pu(1) by (metis suffix_def append.assoc append_Cons append_Nil)
  then have tu: "t = u" using pu(2) before_dollar_suffix_strip by simp
  have run: "trailing_run (strip s) t"
    using pu tu by (auto simp: trailing_run_def suffix_def)
  have "length v \<le> length t" if "trailing_run (strip s) v" for v
  proof -
    from that obtain p' where p': "strip s = p' @ CHR ''.'' # v" and dv: "digit_groups v"
      by (auto simp: trailing_run_def suffix_def)
    have "suffix v (strip s)" using p' by (metis suffix_def append.assoc append_Cons append_Nil)
    then have "before_dollar v = v" by (rule before_dollar_suffix_strip)
    with least[OF p'] dv have "length p \<le> length p'" by simp
    moreover have "length p + length u = length p' + length v"
      using pu(1) p' by (metis add_Suc_right length_Cons length_append nat.inject)
    ultimately show ?thesis using tu by simp
  qed
  with run show ?thesis by (simp add: longest_trailing_run_def)
qed

lemma search_compound_None:
  assumes "search_compound (strip s) = None"
  shows "\<not> trailing_run (strip s) t"
proof
  assume "trailing_run (strip s) t"
  then obtain p where p: "strip s = p @ CHR ''.'' # t" and dt: "digit_groups t"
    by (auto simp: trailing_run_def suffix_def)
  have "suffix t (strip s)" using p by (metis suffix_def append.assoc append_Cons append_Nil)
  then have "before_dollar t = t" by (rule before_dollar_suffix_strip)
  with search_suffix_None[OF assms[unfolded search_compound_def] p] dt show False by simp
qed

lemma trailing_pair_unique:
  assumes "trailing_pair s t" "trailing_pair s u"
  shows "t = u"
proof -
  let ?dots = "\<lambda>x. length (filter (\<lambda>c. c = CHR ''.'') x)"
  from assms(1) obtain p where p: "s = p @ CHR ''.'' # t"
    by (auto simp: trailing_pair_def suffix_def)
  from assms(2) obtain q where q: "s = q @ CHR ''.'' # u"
    by (auto simp: trailing_pair_def suffix_def)
  have dots: "?dots t = 1" "?dots u = 1"
    using assms by (simp_all add: trailing_pair_def two_digit_groups_one_dot)
  have "?dots s = ?dots p + 2" using p dots by simp
  moreover have "?dots s = ?dots q + 2" using q dots by simp
  ultimately have same: "?dots p = ?dots q" by simp
  from p q have eq: "p @ CHR ''.'' # t = q @ CHR ''.'' # u" by simp
  have "\<not> length p < length q"
  proof
    assume "length p < length q"
    from append_sep_longer[OF eq this] obtain r where "q = p @ CHR ''.'' # r" by blast
    with same show False by simp
  qed
  moreover have "\<not> length q < length p"
  proof
    assume "length q < length p"
    from append_sep_longer[OF eq[symmetric] this] obtain r where "p = q @ CHR ''.'' # r" by blast
    with same show False by simp
  qed
  ultimately have "length p = length q" by simp
  with eq show ?thesis by simp
qed

lemma search_pair_Some:
  assumes "search_pair (strip s) = Some t"
  shows "trailing_pair (strip s) t"
proof -
  from search_suffix_Some[OF assms[unfolded search_pair_def]]
  obtain p u where pu: "strip s = p @ CHR ''.'' # u" "t = before_dollar u" "two_digit_groups t"
    by blast
  have "suffix u (strip s)" using pu(1) by (metis suffix_def append.assoc append_Cons append_Nil)
  then have "t = u" using pu(2) before_dollar_suffix_strip by simp
  with pu show ?thesis by (auto simp: trailing_pair_def suffix_def)
qed

lemma search_pair_None:
  assumes "search_pair (strip s) = None"
  shows "\<not> trailing_pair (strip s) t"
proof
  assume "trailing_pair (strip s) t"
  then obtain p where p: "strip s = p @ CHR ''.'' # t" and dt: "two_digit_groups t"
    by (auto simp: trailing_pair_def suffix_def)
  have "suffix t (strip s)" using p by (metis suffix_def append.assoc append_Cons append_Nil)
  then have "before_dollar t = t" by (rule before_dollar_suffix_strip)
  with search_suffix_None[OF assms[unfolded search_pair_def] p] dt show False by simp
qed

lemma not_digit_groups_example: "\<not> digit_groups (before_dollar (u @ example_tail))"
proof
  assume a: "digit_groups (before_dollar (u @ example_tail))"
  have "before_dollar (u @ example_tail) = u @ example_tail"
    by (simp add: before_dollar_def example_tail_def)
  with a have "digit_groups (u @ example_tail)" by simp
  moreover have "CHR ''p'' \<in> set (u @ example_tail)" by (simp add: example_tail_def)
  ultimately have "isdigit CHR ''p'' \<or> CHR ''p'' = CHR ''.''" by (rule digit_groups_chars)
  then show False by (simp add: isdigit_def)
qed

lemma search_compound_example:
  "search_compound (p @ example_tail) = Some ''285278465.1''"
proof -
  have "search_compound (p @ example_tail) = search_compound example_tail"
    unfolding search_compound_def by (rule search_suffix_skip) (rule not_digit_groups_example)
  also have "\<dots> = Some ''285278465.1''"
    by (simp add: example_tail_def str_eval)
  finally show ?thesis .
qed

lemma search_pair_example:
  "search_pair (p @ example_tail) = Some ''285278465.1''"
proof -
  have "\<not> two_digit_groups (before_dollar (u @ example_tail))" for u
    using not_digit_groups_example two_digit_groups_imp_digit_groups by blast
  then have "search_pair (p @ example_tail) = search_pair example_tail"
    unfolding search_pair_def by (rule search_suffix_skip)
  also have "\<dots> = Some ''285278465.1''"
    by (simp add: example_tail_def str_eval)
  finally show ?thesis .
qed

lemma strip_example:
  "strip (p @ example_tail @ '' '') = dropWhile isspace p @ example_tail"
proof -
  have 1: "dropWhile isspace (p @ example_tail @ '' '') = dropWhile isspace p @ example_tail @ '' ''"
    by (simp add: dropWhile_append example_tail_def isspace_def)
  show ?thesis
    unfolding strip_def strip_with_def 1
    by (simp add: example_tail_def isspace_def)
qed

lemma parse_line_example:
  assumes "CHR ''='' \<notin> set p"
  shows "parse_line search_compound True (p @ ''ponOnuStatus.285278465.1 = INTEGER: 4'')
           = Some (''285278465.1'', ''4'')"
    and "parse_line search_pair True (p @ ''ponOnuStatus.285278465.1 = INTEGER: 4'')
           = Some (''285278465.1'', ''4'')"
proof -
  let ?line = "p @ ''ponOnuStatus.285278465.1 = INTEGER: 4''"
  have mem: "CHR ''='' \<in> set ?line" by simp
  have noeq: "x \<noteq> CHR ''=''" if "x \<in> set p" for x
    using that assms by blast
  have "takeWhile (\<lambda>c. c \<noteq> CHR ''='') ?line
          = p @ takeWhile (\<lambda>c. c \<noteq> CHR ''='') ''ponOnuStatus.285278465.1 = INTEGER: 4''"
    by (rule takeWhile_append2) (rule noeq)
  then have tw: "takeWhile (\<lambda>c. c \<noteq> CHR ''='') ?line = p @ example_tail @ '' ''"
    by (simp add: example_tail_def)
  have "dropWhile (\<lambda>c. c \<noteq> CHR ''='') ?line
          = dropWhile (\<lambda>c. c \<noteq> CHR ''='') ''ponOnuStatus.285278465.1 = INTEGER: 4''"
    by (rule dropWhile_append2) (rule noeq)
  then have dw: "dropWhile (\<lambda>c. c \<noteq> CHR ''='') ?line = ''= INTEGER: 4''"
    by simp
  have v: "value_of (strip '' INTEGER: 4'') = ''4''"
    by (simp add: str_eval)
  show "parse_line search_compound True ?line = Some (''285278465.1'', ''4'')"
    unfolding parse_line_eq[OF mem] tw dw strip_example
    by (simp add: index_of_def search_compound_example v)
  show "parse_line search_pair True ?line = Some (''285278465.1'', ''4'')"
    unfolding parse_line_eq[OF mem] tw dw strip_example
    by (simp add: index_of_def search_pair_example v)
qed

lemma numeric_line_oid:
  "oid_part_of numeric_line = ''SNMPv2-SMI::enterprises.3902.1082.500.10.2.3.8.1.4.285278465.1''"
  by (simp add: numeric_line_def oid_part_of_def str_eval)

lemma numeric_line_compound:
  "parse_line search_compound True numeric_line
     = Some (''3902.1082.500.10.2.3.8.1.4.285278465.1'', ''4'')"
  by (simp add: numeric_line_def str_eval)

lemma numeric_line_pair_index:
  "parse_line search_pair True numeric_line = Some (''285278465.1'', ''4'')"
  by (simp add: numeric_line_def str_eval)

lemma numeric_line_zte:
  "zte_parse_snmp_output (Some numeric_line) True = [(''285278465.1'', ''4'')]"
proof -
  have "strip numeric_line = numeric_line"
    by (simp add: numeric_line_def strip_def strip_with_def isspace_def)
  moreover have "split_on CHR 0x0A numeric_line = [numeric_line]"
    by (rule split_on_no_sep) (simp add: numeric_line_def)
  moreover have "numeric_line \<noteq> []" by (simp add: numeric_line_def)
  ultimately show ?thesis
    by (simp add: zte_parse_snmp_output_def parse_with_def numeric_line_pair_index)
qed

lemma numeric_line_run:
  "trailing_run (oid_part_of numeric_line) ''3902.1082.500.10.2.3.8.1.4.285278465.1''"
  unfolding numeric_line_oid
  by (simp add: trailing_run_def digit_groups_def digit_group_def isdigit_def suffix_to_prefix)

lemma numeric_line_pair:
  "trailing_pair (oid_part_of numeric_line) ''285278465.1''"
  unfolding numeric_line_oid
  by (simp add: trailing_pair_def two_digit_groups_def digit_group_def isdigit_def suffix_to_prefix)

section \<open>Lemmas on integers\<close>

lemma py_int_non_numeric:
  assumes "c \<in> set ifindex" "\<not> isdigit c" "\<not> isspace_int c"
    "c \<noteq> CHR ''-''" "c \<noteq> CHR ''+''" "c \<noteq> CHR ''_''"
  shows "py_int ifindex = None"
proof -
  let ?t = "strip_with isspace_int ifindex"
  let ?body = "if ?t \<noteq> [] \<and> (hd ?t = CHR ''-'' \<or> hd ?t = CHR ''+'') then tl ?t else ?t"
  have ct: "c \<in> set ?t" using assms(1,3) by (simp add: in_strip_with)
  have "c \<in> set ?body"
  proof (cases "?t \<noteq> [] \<and> (hd ?t = CHR ''-'' \<or> hd ?t = CHR ''+'')")
    case True
    then obtain h r where hr: "?t = h # r" "h = CHR ''-'' \<or> h = CHR ''+''" by (cases ?t) auto
    with ct assms(4,5) have "c \<in> set r" by auto
    then have "c \<in> set (tl ?t)" using hr by simp
    then show ?thesis unfolding if_P[OF True] .
  next
    case False
    show ?thesis unfolding if_not_P[OF False] by (rule ct)
  qed
  from in_split_on[OF this assms(6)] obtain g where g: "g \<in> set (split_on CHR ''_'' ?body)" "c \<in> set g"
    by blast
  with assms(2) have "\<not> digit_group g" by (auto simp: digit_group_def list_all_iff)
  with g(1) have "\<not> list_all digit_group (split_on CHR ''_'' ?body)" by (auto simp: list_all_iff)
  then show ?thesis by (simp add: py_int_def Let_def)
qed

lemma py_int_digits:
  assumes "digit_group s" "length s \<le> int_max_str_digits"
  shows "py_int s = Some (int (decimal s))"
proof -
  from assms(1) have ne: "s \<noteq> []" and dig: "\<And>c. c \<in> set s \<Longrightarrow> isdigit c"
    by (auto simp: digit_group_def list_all_iff)
  have "isdigit (hd s)" "isdigit (last s)" using ne dig by simp_all
  then have st: "strip_with isspace_int s = s"
    using ne isdigit_not_space by (simp add: strip_with_id)
  have hd: "hd s \<noteq> CHR ''-''" "hd s \<noteq> CHR ''+''" using \<open>isdigit (hd s)\<close> isdigit_not_sign by auto
  have "CHR ''_'' \<notin> set s" using dig isdigit_not_sign by blast
  then have sp: "split_on CHR ''_'' s = [s]" and fl: "filter (\<lambda>c. c \<noteq> CHR ''_'') s = s"
    by (auto simp: split_on_no_sep filter_id_conv)
  show ?thesis
    using assms hd ne by (simp add: py_int_def Let_def st sp fl) 
qed

lemma decode_examples:
  "decode_zte_ifindex ''285278465'' = Some ''1''"
  "decode_zte_ifindex ''285278721'' = Some ''2''"
  by (simp_all add: int_eval str_eval)

section \<open>Lemmas on the metric methods\<close>

lemmas dev_eval = OID_SYS_DESCR_def OID_SYS_NAME_def OID_IF_TYPE_def OID_IF_ADMIN_STATUS_def
  OID_IF_OPER_STATUS_def OID_HW_BOARD_OPER_STATUS_def OID_HW_ONT_RUN_STATUS_def
  OID_ZTE_ONU_STATUS_def OID_FH_CARD_STATUS_def OID_FH_CARD_TYPE_def OID_FH_PON_PORT_TYPE_def
  OID_FH_PON_PORT_NAME_def OID_FH_ONU_STATUS_def

lemma count_eq_le: "count_eq v t \<le> length t"
  unfolding count_eq_def by (metis length_filter_le length_map)

lemma pon_loop_le:
  "used \<le> installed \<Longrightarrow>
   snd (pon_loop types oper_status (installed, used)) \<le> fst (pon_loop types oper_status (installed, used))"
  by (induction types oper_status "(installed, used)" arbitrary: installed used rule: pon_loop.induct) auto

lemma board_loop_subset:
  "set active_cards \<subseteq> set cards \<Longrightarrow> distinct active_cards \<Longrightarrow> distinct cards \<Longrightarrow>
   board_loop types admin_status (cards, active_cards) = (cards', active') \<Longrightarrow>
   set active' \<subseteq> set cards' \<and> distinct active' \<and> distinct cards'"
proof (induction types arbitrary: cards active_cards)
  case Nil
  then show ?case by simp
next
  case (Cons row types)
  obtain idx iftype where row: "row = (idx, iftype)" by (cases row)
  show ?case
  proof (cases "iftype = ''250''")
    case False
    with Cons row show ?thesis by simp
  next
    case True
    show ?thesis
    proof (cases "decode_zte_ifindex idx")
      case None
      with Cons row True show ?thesis by simp
    next
      case (Some slot)
      show ?thesis
      proof (cases "slot = []")
        case True
        with Cons row \<open>iftype = ''250''\<close> Some show ?thesis by simp
      next
        case False
        let ?c = "List.insert slot cards"
        let ?a = "if map_of admin_status idx = Some ''1'' then List.insert slot active_cards else active_cards"
        have step: "board_loop types admin_status (?c, ?a) = (cards', active')"
          using Cons.prems(4) row True Some False by simp
        have "set ?a \<subseteq> set ?c" "distinct ?a" "distinct ?c"
          using Cons.prems(1-3) by auto
        from Cons.IH[OF this step] show ?thesis .
      qed
    qed
  qed
qed

lemma board_loop_le:
  "board_loop types admin_status ([], []) = (cards, active_cards) \<Longrightarrow> length active_cards \<le> length cards"
proof -
  assume "board_loop types admin_status ([], []) = (cards, active_cards)"
  from board_loop_subset[OF _ _ _ this]
  have "set active_cards \<subseteq> set cards" "distinct active_cards" "distinct cards" by simp_all
  then show ?thesis
    by (metis card_mono distinct_card finite_set)
qed

lemma hw_board_le: "snd (hw_get_board_status run a) \<le> fst (hw_get_board_status run a)"
  by (simp add: hw_get_board_status_def Let_def count_eq_le)

lemma hw_pon_le: "snd (hw_get_pon_port_status run a) \<le> fst (hw_get_pon_port_status run a)"
  by (simp add: hw_get_pon_port_status_def Let_def pon_loop_le)

lemma hw_ont_le: "snd (hw_get_ont_status run a) \<le> fst (hw_get_ont_status run a)"
  by (simp add: hw_get_ont_status_def Let_def count_eq_le)

lemma zte_board_le: "snd (zte_get_board_status run a) \<le> fst (zte_get_board_status run a)"
  by (auto simp: zte_get_board_status_def Let_def split: prod.splits dest: board_loop_le)

lemma zte_pon_le: "snd (zte_get_pon_port_status run a) \<le> fst (zte_get_pon_port_status run a)"
  by (simp add: zte_get_pon_port_status_def Let_def pon_loop_le)

lemma zte_ont_le: "snd (zte_get_ont_status run a) \<le> fst (zte_get_ont_status run a)"
  by (simp add: zte_get_ont_status_def Let_def)

lemma fleet_board: "hw_get_board_status fleet ''10.0.0.1'' = (2, 1)"
  by (simp add: hw_get_board_status_def fleet_def dev_eval hw_parse_snmp_output_def str_eval count_eq_def)

lemma zte_onu_rows:
  "zte_parse_snmp_output (zte_onu_device addr OID_ZTE_ONU_STATUS True) True =
     [(''285278465.1'', ''1''), (''285278465.2'', ''2''), (''285278465.3'', ''3''),
      (''285278465.4'', ''4''), (''285278465.5'', ''5''), (''285278465.6'', ''6''),
      (''285278465.7'', ''7'')]"
  by (simp add: zte_onu_device_def zte_parse_snmp_output_def str_eval)

lemma fh_onu_rows:
  "fh_parse_snmp_output (fh_onu_device addr OID_FH_ONU_STATUS True) False =
     [(''1'', ''0''), (''2'', ''1''), (''3'', ''2''), (''4'', ''3'')]"
  by (simp add: fh_onu_device_def fh_parse_snmp_output_def str_eval)

lemma fh_pon_sample: "fh_get_pon_port_status fh_pon_device addr = (0, 1)"
  by (simp add: fh_get_pon_port_status_def fh_pon_device_def dev_eval fh_parse_snmp_output_def
      str_eval count_eq_def upper_def upper_char_def)




section \<open>Lemmas on the orchestrator and on the aggregator\<close>




lemma total_ok_filter: "total_ok field (filter (\<lambda>r. status r = ''OK'') results) = total_ok field results"
  by (simp add: total_ok_def)

lemma failed_count:
  "length results - length (filter (\<lambda>r. status r = ''OK'') results)
     = length (filter (\<lambda>r. status r \<noteq> ''OK'') results)"
  using sum_length_filter_compl[of "\<lambda>r. status r = ''OK''" results] by simp

lemma ip_initial: "ip (initial_result addr) = addr"
  by (simp add: initial_result_def)

lemma ip_collect_metrics: "ip (collect_metrics n m b p t r) = ip r"
  by (simp add: collect_metrics_def Let_def split: sum.splits)

lemma ip_hw_collect: "ip (hw_collect_olt_data run addr) = addr"
  by (simp add: hw_collect_olt_data_def Let_def ip_collect_metrics ip_initial)

lemma ip_zte_collect: "ip (zte_collect_olt_data run addr) = addr"
  by (simp add: zte_collect_olt_data_def Let_def ip_collect_metrics ip_initial)

lemma ip_fh_collect: "ip (fh_collect_olt_data run addr) = addr"
  by (simp add: fh_collect_olt_data_def Let_def ip_collect_metrics ip_initial)

lemma gather_map: "gather collect completed = map collect completed"
  by (simp add: gather_def future_result_def)

lemma completion_order_mset:
  "completion_order ip_list c1 \<Longrightarrow> completion_order ip_list c2 \<Longrightarrow> mset c1 = mset c2"
proof -
  assume "completion_order ip_list c1" "completion_order ip_list c2"
  then have "distinct c1" "distinct c2" "set c1 = set c2"
    by (simp_all add: completion_order_def)
  then show ?thesis by (simp add: set_eq_iff_mset_eq_distinct)
qed

lemma sum_list_filter_mset:
  fixes g :: "'a \<Rightarrow> nat"
  shows "mset xs = mset ys \<Longrightarrow> sum_list (map g (filter P xs)) = sum_list (map g (filter P ys))"
proof -
  assume "mset xs = mset ys"
  then have "mset (map g (filter P xs)) = mset (map g (filter P ys))"
    by (metis mset_filter mset_map)
  then show ?thesis by (metis sum_mset_sum_list)
qed

lemma length_filter_mset: "mset xs = mset ys \<Longrightarrow> length (filter P xs) = length (filter P ys)"
  by (metis mset_filter size_mset)

lemma summary_mset: "mset xs = mset ys \<Longrightarrow> summary xs = summary ys"
proof -
  assume m: "mset xs = mset ys"
  then have "length xs = length ys" by (metis size_mset)
  moreover have "total_ok f xs = total_ok f ys" for f
    unfolding total_ok_def by (rule sum_list_filter_mset[OF m])
  moreover have "length (filter (\<lambda>r. status r = ''OK'') xs) = length (filter (\<lambda>r. status r = ''OK'') ys)"
    by (rule length_filter_mset[OF m])
  ultimately show ?thesis by (simp add: summary_def Let_def)
qed

lemma main_order:
  assumes key: "\<And>addr. ip (collect addr) = addr"
    and "completion_order ip_list c1" "completion_order ip_list c2"
  shows "main collect c1 = main collect c2"
proof -
  from assms(2,3) have m: "mset c1 = mset c2" by (rule completion_order_mset)
  then have mm: "mset (map collect c1) = mset (map collect c2)" by simp
  have "inj_on ip (set (map collect c1))"
    by (auto simp: inj_on_def key)
  with mm have sorted: "sort_key ip (map collect c1) = sort_key ip (map collect c2)"
    by (rule sort_key_eq_sort_key)
  from m have "set c1 = set c2" by (metis set_mset_mset)
  then have empty: "c1 = [] \<longleftrightarrow> c2 = []" by (metis set_empty)
  from mm have "summary (map collect c1) = summary (map collect c2)" by (rule summary_mset)
  with sorted empty show ?thesis
    by (simp add: main_def gather_map sort_values_ip_def Let_def)
qed

section \<open>Claims\<close>

subsection \<open>C1: status of the record and the reachability probe\<close>




subsection \<open>C2: index of a line in the full compound mode\<close>

text \<open>
  Claim C2, as amended. For every line with a \<open>=\<close>, the full compound mode of the Huawei and
  of the Fiberhome parser (pattern \<open>\.(\d+(?:\.\d+)*)$\<close>) stores under the longest trailing
  run of the identifier part, and under its last dot-separated component when there is no
  trailing run. The ZTE parser (pattern \<open>\.(\d+\.\d+)$\<close>) stores under the trailing pair,
  the last two digit groups, when the identifier part ends with one, and under the last
  component otherwise. A line that ends with \<open>ponOnuStatus.285278465.1 = INTEGER: 4\<close> gives
  the index \<open>285278465.1\<close> and the value \<open>4\<close> with both patterns.
\<close>

theorem full_index_of_line:
  assumes "CHR ''='' \<in> set line"
  shows "(\<exists>idx v. parse_line search_compound True line = Some (idx, v) \<and>
            (if \<exists>t. trailing_run (oid_part_of line) t
             then longest_trailing_run (oid_part_of line) idx
             else idx = last_component (oid_part_of line)))
       \<and> (\<exists>idx v. parse_line search_pair True line = Some (idx, v) \<and>
            (if \<exists>t. trailing_pair (oid_part_of line) t
             then trailing_pair (oid_part_of line) idx
               \<and> (\<forall>t. trailing_pair (oid_part_of line) t \<longrightarrow> t = idx)
             else idx = last_component (oid_part_of line)))
       \<and> (\<forall>p. CHR ''='' \<notin> set p \<longrightarrow>
            parse_line search_compound True (p @ ''ponOnuStatus.285278465.1 = INTEGER: 4'')
              = Some (''285278465.1'', ''4'')
            \<and> parse_line search_pair True (p @ ''ponOnuStatus.285278465.1 = INTEGER: 4'')
              = Some (''285278465.1'', ''4''))
       \<and> hw_parse_snmp_output (Some ''...ponOnuStatus.285278465.1 = INTEGER: 4'') True
           = [(''285278465.1'', ''4'')]
       \<and> fh_parse_snmp_output (Some ''...ponOnuStatus.285278465.1 = INTEGER: 4'') True
           = [(''285278465.1'', ''4'')]
       \<and> zte_parse_snmp_output (Some ''...ponOnuStatus.285278465.1 = INTEGER: 4'') True
           = [(''285278465.1'', ''4'')]"
proof (intro conjI)
  let ?oid = "oid_part_of line"
  show "\<exists>idx v. parse_line search_compound True line = Some (idx, v) \<and>
            (if \<exists>t. trailing_run ?oid t then longest_trailing_run ?oid idx
             else idx = last_component ?oid)"
  proof (cases "search_compound ?oid")
    case None
    then have "\<not> (\<exists>t. trailing_run ?oid t)"
      using search_compound_None unfolding oid_part_of_def by blast
    with None show ?thesis
      by (simp add: parse_line_eq[OF assms] index_of_def oid_part_of_def)
  next
    case (Some t)
    then have "longest_trailing_run ?oid t"
      using search_compound_Some unfolding oid_part_of_def by blast
    moreover from this have "\<exists>t. trailing_run ?oid t"
      by (auto simp: longest_trailing_run_def)
    ultimately show ?thesis using Some
      by (simp add: parse_line_eq[OF assms] index_of_def oid_part_of_def)
  qed
  show "\<exists>idx v. parse_line search_pair True line = Some (idx, v) \<and>
            (if \<exists>t. trailing_pair ?oid t
             then trailing_pair ?oid idx \<and> (\<forall>t. trailing_pair ?oid t \<longrightarrow> t = idx)
             else idx = last_component ?oid)"
  proof (cases "search_pair ?oid")
    case None
    then have "\<not> (\<exists>t. trailing_pair ?oid t)"
      using search_pair_None unfolding oid_part_of_def by blast
    with None show ?thesis
      by (simp add: parse_line_eq[OF assms] index_of_def oid_part_of_def)
  next
    case (Some t)
    then have tp: "trailing_pair ?oid t"
      using search_pair_Some unfolding oid_part_of_def by blast
    have ex: "\<exists>t. trailing_pair ?oid t" using tp by blast
    have uniq: "\<forall>u. trailing_pair ?oid u \<longrightarrow> u = t"
      using trailing_pair_unique[OF _ tp] by blast
    let ?v = "value_of (strip (tl (dropWhile (\<lambda>c. c \<noteq> CHR ''='') line)))"
    have pl: "parse_line search_pair True line = Some (t, ?v)"
      using Some by (simp add: parse_line_eq[OF assms] index_of_def oid_part_of_def)
    have "parse_line search_pair True line = Some (t, ?v) \<and>
            (if \<exists>t. trailing_pair ?oid t
             then trailing_pair ?oid t \<and> (\<forall>u. trailing_pair ?oid u \<longrightarrow> u = t)
             else t = last_component ?oid)"
      unfolding if_P[OF ex] using pl tp uniq by (intro conjI)
    then show ?thesis
      by (intro exI)
  qed
  show "\<forall>p. CHR ''='' \<notin> set p \<longrightarrow>
            parse_line search_compound True (p @ ''ponOnuStatus.285278465.1 = INTEGER: 4'')
              = Some (''285278465.1'', ''4'')
            \<and> parse_line search_pair True (p @ ''ponOnuStatus.285278465.1 = INTEGER: 4'')
              = Some (''285278465.1'', ''4'')"
    using parse_line_example by blast
  show "hw_parse_snmp_output (Some ''...ponOnuStatus.285278465.1 = INTEGER: 4'') True
           = [(''285278465.1'', ''4'')]"
    by (simp add: hw_parse_snmp_output_def str_eval)
  show "fh_parse_snmp_output (Some ''...ponOnuStatus.285278465.1 = INTEGER: 4'') True
           = [(''285278465.1'', ''4'')]"
    by (simp add: fh_parse_snmp_output_def str_eval)
  show "zte_parse_snmp_output (Some ''...ponOnuStatus.285278465.1 = INTEGER: 4'') True
           = [(''285278465.1'', ''4'')]"
    by (simp add: zte_parse_snmp_output_def str_eval)
qed

theorem full_index_of_line_witness:
  "CHR ''='' \<in> set numeric_line
   \<and> longest_trailing_run (oid_part_of numeric_line) ''3902.1082.500.10.2.3.8.1.4.285278465.1''
   \<and> trailing_pair (oid_part_of numeric_line) ''285278465.1''
   \<and> CHR ''='' \<notin> set ''ZTE-AN-GPON-MIB::''
   \<and> parse_line search_pair True
         (''ZTE-AN-GPON-MIB::'' @ ''ponOnuStatus.285278465.1 = INTEGER: 4'')
       = Some (''285278465.1'', ''4'')"
proof -
  have mem: "CHR ''='' \<in> set numeric_line" by (simp add: numeric_line_def)
  have exr: "\<exists>t. trailing_run (oid_part_of numeric_line) t"
    using numeric_line_run by blast
  have exq: "\<exists>t. trailing_pair (oid_part_of numeric_line) t"
    using numeric_line_pair by blast
  note inst = full_index_of_line[OF mem]
  from conjunct1[OF inst] obtain idx v where
    a: "parse_line search_compound True numeric_line = Some (idx, v)" and
    b: "if \<exists>t. trailing_run (oid_part_of numeric_line) t
        then longest_trailing_run (oid_part_of numeric_line) idx
        else idx = last_component (oid_part_of numeric_line)"
    by blast
  from a numeric_line_compound have i: "idx = ''3902.1082.500.10.2.3.8.1.4.285278465.1''"
    by simp
  from b have "longest_trailing_run (oid_part_of numeric_line) idx" unfolding if_P[OF exr] .
  then have 1: "longest_trailing_run (oid_part_of numeric_line)
                  ''3902.1082.500.10.2.3.8.1.4.285278465.1''"
    unfolding i .
  from conjunct1[OF conjunct2[OF inst]] obtain idx' v' where
    a': "parse_line search_pair True numeric_line = Some (idx', v')" and
    b': "if \<exists>t. trailing_pair (oid_part_of numeric_line) t
         then trailing_pair (oid_part_of numeric_line) idx'
           \<and> (\<forall>t. trailing_pair (oid_part_of numeric_line) t \<longrightarrow> t = idx')
         else idx' = last_component (oid_part_of numeric_line)"
    by blast
  from a' numeric_line_pair_index have i': "idx' = ''285278465.1''" by simp
  from b' have "trailing_pair (oid_part_of numeric_line) idx'"
    unfolding if_P[OF exq] by (rule conjunct1)
  then have 2: "trailing_pair (oid_part_of numeric_line) ''285278465.1''"
    unfolding i' .
  have noeq: "CHR ''='' \<notin> set ''ZTE-AN-GPON-MIB::''" by simp
  from inst have "\<forall>p. CHR ''='' \<notin> set p \<longrightarrow>
            parse_line search_compound True (p @ ''ponOnuStatus.285278465.1 = INTEGER: 4'')
              = Some (''285278465.1'', ''4'')
            \<and> parse_line search_pair True (p @ ''ponOnuStatus.285278465.1 = INTEGER: 4'')
              = Some (''285278465.1'', ''4'')"
    by (rule conjunct1[OF conjunct2[OF conjunct2]])
  then have "CHR ''='' \<notin> set ''ZTE-AN-GPON-MIB::'' \<longrightarrow>
            parse_line search_compound True
              (''ZTE-AN-GPON-MIB::'' @ ''ponOnuStatus.285278465.1 = INTEGER: 4'')
              = Some (''285278465.1'', ''4'')
            \<and> parse_line search_pair True
              (''ZTE-AN-GPON-MIB::'' @ ''ponOnuStatus.285278465.1 = INTEGER: 4'')
              = Some (''285278465.1'', ''4'')"
    by (rule spec)
  from conjunct2[OF mp[OF this noeq]]
  have 3: "parse_line search_pair True
         (''ZTE-AN-GPON-MIB::'' @ ''ponOnuStatus.285278465.1 = INTEGER: 4'')
       = Some (''285278465.1'', ''4'')" .
  from mem 1 2 noeq 3 show ?thesis by (intro conjI)
qed

text \<open>
  The claim as it is written fails for the ZTE parser: on a line whose identifier is
  printed with numbers, the index is the last two groups, and a longer trailing run
  exists.
\<close>

theorem zte_index_is_not_longest_run:
  "zte_parse_snmp_output (Some numeric_line) True = [(''285278465.1'', ''4'')]
   \<and> oid_part_of numeric_line
       = ''SNMPv2-SMI::enterprises.3902.1082.500.10.2.3.8.1.4.285278465.1''
   \<and> trailing_run (oid_part_of numeric_line) ''3902.1082.500.10.2.3.8.1.4.285278465.1''
   \<and> \<not> longest_trailing_run (oid_part_of numeric_line) ''285278465.1''"
proof -
  have n: "\<not> longest_trailing_run (oid_part_of numeric_line) ''285278465.1''"
  proof
    assume "longest_trailing_run (oid_part_of numeric_line) ''285278465.1''"
    then have "\<forall>u. trailing_run (oid_part_of numeric_line) u
                 \<longrightarrow> length u \<le> length ''285278465.1''"
      by (simp add: longest_trailing_run_def)
    with numeric_line_run
    have "length ''3902.1082.500.10.2.3.8.1.4.285278465.1'' \<le> length ''285278465.1''"
      by blast
    then show False by simp
  qed
  from numeric_line_zte numeric_line_oid numeric_line_run n show ?thesis by (intro conjI)
qed

subsection \<open>C3: metric methods and missing tables\<close>




subsection \<open>C4: subscriber units of a ZTE device\<close>

text \<open>
  Claim C4. For every answer to the walk of the ZTE subscriber unit status table,
  \<open>get_ont_status\<close> returns as installed the number of parsed rows, which have distinct
  indices, and as online the number of rows whose status is \<open>1\<close>, \<open>3\<close> or \<open>4\<close>; no other
  status counts as online.
\<close>

theorem zte_ont_status_counts:
  "zte_get_ont_status run addr =
     (length (zte_parse_snmp_output (run addr OID_ZTE_ONU_STATUS True) True),
      length (filter (\<lambda>(index, status). status = ''1'' \<or> status = ''3'' \<or> status = ''4'')
                (zte_parse_snmp_output (run addr OID_ZTE_ONU_STATUS True) True)))
   \<and> distinct (map fst (zte_parse_snmp_output (run addr OID_ZTE_ONU_STATUS True) True))"
proof
  let ?rows = "zte_parse_snmp_output (run addr OID_ZTE_ONU_STATUS True) True"
  have cnt: "length (filter (\<lambda>status. status \<in> set online_statuses) (map snd rows))
      = length (filter (\<lambda>(index, status). status = ''1'' \<or> status = ''3'' \<or> status = ''4'') rows)"
    for rows :: table
    by (induction rows) (auto simp: online_statuses_def)
  show "zte_get_ont_status run addr =
     (length ?rows,
      length (filter (\<lambda>(index, status). status = ''1'' \<or> status = ''3'' \<or> status = ''4'') ?rows))"
  proof (cases "truthy (run addr OID_ZTE_ONU_STATUS True)")
    case True
    then show ?thesis by (simp add: zte_get_ont_status_def Let_def cnt del: length_filter_map)
  next
    case False
    then have "?rows = []" by (simp add: zte_parse_snmp_output_def parse_with_falsy)
    with False show ?thesis by (simp add: zte_get_ont_status_def)
  qed
  show "distinct (map fst ?rows)"
    by (simp add: zte_parse_snmp_output_def distinct_parse_with)
qed

theorem zte_ont_status_counts_witness:
  "zte_get_ont_status zte_onu_device ''10.0.0.1'' = (7, 3)"
  using zte_ont_status_counts[of zte_onu_device "''10.0.0.1''"] by (simp add: zte_onu_rows)

subsection \<open>C5: subscriber units of a Fiberhome device\<close>

text \<open>
  Claim C5. For every answer to the walk of the Fiberhome subscriber unit status table,
  \<open>get_onu_status\<close> returns as installed the number of rows whose status is not \<open>0\<close> and
  as online the number of rows whose status is \<open>1\<close>; the rows with another status than
  \<open>0\<close> and \<open>1\<close> are the difference of the two counts.
\<close>

theorem fh_onu_status_counts:
  "(let statuses = fh_parse_snmp_output (run addr OID_FH_ONU_STATUS True) False in
     fh_get_onu_status run addr =
       (length (filter (\<lambda>(index, status). status \<noteq> ''0'') statuses),
        length (filter (\<lambda>(index, status). status = ''1'') statuses))
     \<and> fst (fh_get_onu_status run addr) =
         snd (fh_get_onu_status run addr)
         + length (filter (\<lambda>(index, status). status \<noteq> ''0'' \<and> status \<noteq> ''1'') statuses))"
proof -
  let ?rows = "fh_parse_snmp_output (run addr OID_FH_ONU_STATUS True) False"
  have a: "length (filter (\<lambda>v. v \<noteq> ''0'') (map snd rows))
             = length (filter (\<lambda>(index, status). status \<noteq> ''0'') rows)" for rows :: table
    by (induction rows) auto
  have b: "length (filter (\<lambda>v. v = ''1'') (map snd rows))
             = length (filter (\<lambda>(index, status). status = ''1'') rows)" for rows :: table
    by (induction rows) auto
  have c: "length (filter (\<lambda>(index, status). status \<noteq> ''0'') rows)
             = length (filter (\<lambda>(index, status). status = ''1'') rows)
               + length (filter (\<lambda>(index, status). status \<noteq> ''0'' \<and> status \<noteq> ''1'') rows)"
    for rows :: table
    by (induction rows) auto
  have eq: "fh_get_onu_status run addr =
       (length (filter (\<lambda>(index, status). status \<noteq> ''0'') ?rows),
        length (filter (\<lambda>(index, status). status = ''1'') ?rows))"
  proof (cases "truthy (run addr OID_FH_ONU_STATUS True)")
    case True
    then show ?thesis by (simp add: fh_get_onu_status_def Let_def a b del: length_filter_map)
  next
    case False
    then have "?rows = []" by (simp add: fh_parse_snmp_output_def parse_with_falsy)
    with False show ?thesis by (simp add: fh_get_onu_status_def)
  qed
  show ?thesis unfolding Let_def eq using c[of ?rows] by simp
qed

theorem fh_onu_status_counts_witness:
  "fh_get_onu_status fh_onu_device ''10.0.0.1'' = (3, 1)"
  using fh_onu_status_counts[of fh_onu_device "''10.0.0.1''"] by (simp add: fh_onu_rows)

subsection \<open>C6: slot of a ZTE interface index\<close>

text \<open>
  Claim C6. For every index text, \<open>decode_zte_ifindex\<close> returns the slot
  \<open>(index >> 8) & 0xFF\<close>, as its decimal text, when \<open>int\<close> accepts the index, which it does
  for every text of at most 4300 digits; it returns no slot when \<open>int\<close> refuses it, which it
  does for every text with a character other than a digit, the whitespace that \<open>int\<close>
  drops, a sign or an underscore. The index 285278465 gives the slot 1 and the index 285278721 the slot 2.
\<close>

theorem decode_zte_ifindex_slot:
  "(\<forall>idx. py_int ifindex = Some idx \<longrightarrow>
      decode_zte_ifindex ifindex = Some (py_str (drop_bit 8 idx AND 0xFF)))
   \<and> (digit_group ifindex \<and> length ifindex \<le> int_max_str_digits \<longrightarrow>
      py_int ifindex = Some (int (decimal ifindex)))
   \<and> (py_int ifindex = None \<longrightarrow> decode_zte_ifindex ifindex = None)
   \<and> ((\<exists>c \<in> set ifindex. \<not> isdigit c \<and> \<not> isspace_int c \<and> c \<noteq> CHR ''-'' \<and> c \<noteq> CHR ''+''
         \<and> c \<noteq> CHR ''_'') \<longrightarrow> decode_zte_ifindex ifindex = None)
   \<and> decode_zte_ifindex ''285278465'' = Some ''1''
   \<and> decode_zte_ifindex ''285278721'' = Some ''2''"
proof (intro conjI allI impI)
  fix idx assume "py_int ifindex = Some idx"
  then show "decode_zte_ifindex ifindex = Some (py_str (drop_bit 8 idx AND 0xFF))"
    by (simp add: decode_zte_ifindex_def)
next
  assume "digit_group ifindex \<and> length ifindex \<le> int_max_str_digits"
  then show "py_int ifindex = Some (int (decimal ifindex))"
    using py_int_digits by blast
next
  assume "py_int ifindex = None"
  then show "decode_zte_ifindex ifindex = None"
    by (simp add: decode_zte_ifindex_def)
next
  assume "\<exists>c \<in> set ifindex. \<not> isdigit c \<and> \<not> isspace_int c \<and> c \<noteq> CHR ''-'' \<and> c \<noteq> CHR ''+''
         \<and> c \<noteq> CHR ''_''"
  then have "py_int ifindex = None" using py_int_non_numeric by blast
  then show "decode_zte_ifindex ifindex = None"
    by (simp add: decode_zte_ifindex_def)
next
  show "decode_zte_ifindex ''285278465'' = Some ''1''" by (rule decode_examples)
next
  show "decode_zte_ifindex ''285278721'' = Some ''2''" by (rule decode_examples)
qed

theorem decode_zte_ifindex_slot_witness:
  "digit_group ''285278466'' \<and> length ''285278466'' \<le> int_max_str_digits
   \<and> py_int ''285278466'' = Some 285278466
   \<and> decode_zte_ifindex ''285278466'' = Some ''1''
   \<and> CHR ''g'' \<in> set ''gpon_1/2/3''
   \<and> \<not> isdigit CHR ''g'' \<and> \<not> isspace_int CHR ''g''
   \<and> decode_zte_ifindex ''gpon_1/2/3'' = None
   \<and> py_int ''12 34'' = None
   \<and> decode_zte_ifindex ''12 34'' = None"
proof -
  have d: "digit_group ''285278466''" "length ''285278466'' \<le> int_max_str_digits"
    by (simp_all add: digit_group_def isdigit_def int_max_str_digits_def)
  have v: "int (decimal ''285278466'') = 285278466"
    by (simp add: decimal_def digit_val_def)
  have s: "py_str (drop_bit 8 285278466 AND 0xFF) = ''1''"
    by (simp add: int_eval)
  have g: "CHR ''g'' \<in> set ''gpon_1/2/3''" "\<not> isdigit CHR ''g''" "\<not> isspace_int CHR ''g''"
    by (simp_all add: isdigit_def isspace_int_def)
  have n: "py_int ''12 34'' = None"
    by (simp add: int_eval str_eval)
  note a = decode_zte_ifindex_slot[of "''285278466''"]
  from a d have p: "py_int ''285278466'' = Some (int (decimal ''285278466''))" by blast
  then have p': "py_int ''285278466'' = Some 285278466" unfolding v .
  from a p' have "decode_zte_ifindex ''285278466'' = Some (py_str (drop_bit 8 285278466 AND 0xFF))"
    by blast
  then have 1: "decode_zte_ifindex ''285278466'' = Some ''1''" unfolding s .
  have "\<exists>c \<in> set ''gpon_1/2/3''. \<not> isdigit c \<and> \<not> isspace_int c \<and> c \<noteq> CHR ''-'' \<and> c \<noteq> CHR ''+''
         \<and> c \<noteq> CHR ''_''"
    using g by (intro bexI[of _ "CHR ''g''"]) simp_all
  with decode_zte_ifindex_slot[of "''gpon_1/2/3''"]
  have 2: "decode_zte_ifindex ''gpon_1/2/3'' = None" by blast
  from decode_zte_ifindex_slot[of "''12 34''"] n
  have 3: "decode_zte_ifindex ''12 34'' = None" by blast
  from d p' 1 g 2 n 3 show ?thesis by (intro conjI)
qed

subsection \<open>C7: fleet summary\<close>

text \<open>
  Claim C7. For every list of records, the summary counts the records, the records with the
  status \<open>OK\<close> and, as failed, the other records, and each of its six totals is the sum of
  one counter over the records with the status \<open>OK\<close>, a missing counter taken as 0. The
  other records add nothing to a total: the summary of the \<open>OK\<close> records alone has the
  same six totals.
\<close>

theorem summary_sums_ok_records_only:
  "(let ok = filter (\<lambda>r. status r = ''OK'') results in
     summary results =
       \<lparr>total = length results, success = length ok,
        failed = length (filter (\<lambda>r. status r \<noteq> ''OK'') results),
        total_board_installed = sum_list (map (\<lambda>r. get0 (board_installed r)) ok),
        total_board_used = sum_list (map (\<lambda>r. get0 (board_used r)) ok),
        total_pon_installed = sum_list (map (\<lambda>r. get0 (pon_port_installed r)) ok),
        total_pon_used = sum_list (map (\<lambda>r. get0 (pon_port_used r)) ok),
        total_ont_installed = sum_list (map (\<lambda>r. get0 (ont_installed r)) ok),
        total_ont_online = sum_list (map (\<lambda>r. get0 (ont_online r)) ok)\<rparr>
     \<and> summary ok = (summary results)\<lparr>total := length ok, failed := 0\<rparr>)"
  unfolding Let_def
  by (simp add: summary_def Let_def total_ok_def failed_count)

theorem summary_sums_ok_records_only_witness:
  "summary sample_results =
     \<lparr>total = 4, success = 2, failed = 2,
      total_board_installed = 6, total_board_used = 5,
      total_pon_installed = 48, total_pon_used = 28,
      total_ont_installed = 600, total_ont_online = 540\<rparr>"
  using summary_sums_ok_records_only[of sample_results]
  by (simp add: sample_results_def Let_def get0_def)

subsection \<open>C8: order of completion\<close>

text \<open>
  Claim C8. For every transport, a function of the address, the object identifier and the
  walk flag, and every two orders in which the tasks of one list of addresses complete,
  \<open>main\<close> gives the same sequence of records sorted by address and the same summary.
\<close>

theorem main_independent_of_completion_order:
  assumes "completion_order ip_list c1" "completion_order ip_list c2"
  shows "hw_main run c1 = hw_main run c2
       \<and> zte_main run c1 = zte_main run c2
       \<and> fh_main run c1 = fh_main run c2"
  unfolding hw_main_def zte_main_def fh_main_def
  using assms by (intro conjI main_order ip_hw_collect ip_zte_collect ip_fh_collect)

theorem main_independent_of_completion_order_witness:
  "completion_order [''10.0.0.1'', ''10.0.0.2'', ''10.0.0.3'']
     [''10.0.0.3'', ''10.0.0.1'', ''10.0.0.2'']
   \<and> completion_order [''10.0.0.1'', ''10.0.0.2'', ''10.0.0.3'']
     [''10.0.0.2'', ''10.0.0.3'', ''10.0.0.1'']
   \<and> hw_main fleet [''10.0.0.3'', ''10.0.0.1'', ''10.0.0.2'']
       = hw_main fleet [''10.0.0.2'', ''10.0.0.3'', ''10.0.0.1'']"
proof -
  have 1: "completion_order [''10.0.0.1'', ''10.0.0.2'', ''10.0.0.3'']
     [''10.0.0.3'', ''10.0.0.1'', ''10.0.0.2'']"
    by (simp add: completion_order_def insert_commute)
  have 2: "completion_order [''10.0.0.1'', ''10.0.0.2'', ''10.0.0.3'']
     [''10.0.0.2'', ''10.0.0.3'', ''10.0.0.1'']"
    by (simp add: completion_order_def insert_commute)
  from main_independent_of_completion_order[OF 1 2, of fleet]
  have "hw_main fleet [''10.0.0.3'', ''10.0.0.1'', ''10.0.0.2'']
       = hw_main fleet [''10.0.0.2'', ''10.0.0.3'', ''10.0.0.1'']"
    by (rule conjunct1)
  with 1 2 show ?thesis by (intro conjI)
qed

subsection \<open>C9: used above installed\<close>

text \<open>
  Claim C9. The PON port count of the Fiberhome adapter takes installed from the port type
  table, the rows equal to \<open>1\<close>, and used from the port name table, the rows with \<open>PON\<close> in
  the name; there is a device for which used is greater than installed.
\<close>

theorem fh_pon_used_exceeds_installed:
  "(truthy (run addr OID_FH_PON_PORT_TYPE True) \<and> truthy (run addr OID_FH_PON_PORT_NAME True) \<longrightarrow>
      fh_get_pon_port_status run addr =
        (count_eq ''1'' (fh_parse_snmp_output (run addr OID_FH_PON_PORT_TYPE True) False),
         length (filter (\<lambda>v. v \<noteq> [] \<and> contains ''PON'' (upper v))
                   (map snd (fh_parse_snmp_output (run addr OID_FH_PON_PORT_NAME True) False)))))
   \<and> (\<exists>device. fst (fh_get_pon_port_status device addr) < snd (fh_get_pon_port_status device addr))"
proof (intro conjI impI)
  assume "truthy (run addr OID_FH_PON_PORT_TYPE True) \<and> truthy (run addr OID_FH_PON_PORT_NAME True)"
  then show "fh_get_pon_port_status run addr =
        (count_eq ''1'' (fh_parse_snmp_output (run addr OID_FH_PON_PORT_TYPE True) False),
         length (filter (\<lambda>v. v \<noteq> [] \<and> contains ''PON'' (upper v))
                   (map snd (fh_parse_snmp_output (run addr OID_FH_PON_PORT_NAME True) False))))"
    by (simp add: fh_get_pon_port_status_def Let_def del: length_filter_map)
next
  have "fst (fh_get_pon_port_status fh_pon_device addr) < snd (fh_get_pon_port_status fh_pon_device addr)"
    by (simp add: fh_pon_sample)
  then show "\<exists>device. fst (fh_get_pon_port_status device addr) < snd (fh_get_pon_port_status device addr)"
    by blast
qed

theorem fh_pon_used_exceeds_installed_witness:
  "truthy (fh_pon_device ''10.0.0.1'' OID_FH_PON_PORT_TYPE True)
   \<and> truthy (fh_pon_device ''10.0.0.1'' OID_FH_PON_PORT_NAME True)
   \<and> count_eq ''1'' (fh_parse_snmp_output (fh_pon_device ''10.0.0.1'' OID_FH_PON_PORT_TYPE True) False) = 0
   \<and> fh_get_pon_port_status fh_pon_device ''10.0.0.1'' = (0, 1)"
proof -
  have t: "truthy (fh_pon_device ''10.0.0.1'' OID_FH_PON_PORT_TYPE True)"
    "truthy (fh_pon_device ''10.0.0.1'' OID_FH_PON_PORT_NAME True)"
    by (simp_all add: fh_pon_device_def dev_eval truthy_def)
  have c: "count_eq ''1'' (fh_parse_snmp_output (fh_pon_device ''10.0.0.1'' OID_FH_PON_PORT_TYPE True) False) = 0"
    by (simp add: fh_pon_device_def dev_eval fh_parse_snmp_output_def str_eval count_eq_def)
  have n: "length (filter (\<lambda>v. v \<noteq> [] \<and> contains ''PON'' (upper v))
                   (map snd (fh_parse_snmp_output (fh_pon_device ''10.0.0.1'' OID_FH_PON_PORT_NAME True) False))) = 1"
    by (simp add: fh_pon_device_def dev_eval fh_parse_snmp_output_def str_eval upper_def upper_char_def)
  from fh_pon_used_exceeds_installed[of fh_pon_device "''10.0.0.1''"] t
  have "fh_get_pon_port_status fh_pon_device ''10.0.0.1'' =
        (count_eq ''1'' (fh_parse_snmp_output (fh_pon_device ''10.0.0.1'' OID_FH_PON_PORT_TYPE True) False),
         length (filter (\<lambda>v. v \<noteq> [] \<and> contains ''PON'' (upper v))
                   (map snd (fh_parse_snmp_output (fh_pon_device ''10.0.0.1'' OID_FH_PON_PORT_NAME True) False))))"
    by blast
  then have "fh_get_pon_port_status fh_pon_device ''10.0.0.1'' = (0, 1)"
    unfolding c n .
  with t c show ?thesis by (intro conjI)
qed

subsection \<open>C10: used at most installed\<close>

text \<open>
  Claim C10. For every device, each of the three metric methods of the Huawei adapter and
  of the ZTE adapter returns a pair whose second component, used or online, is at most its
  first, installed.
\<close>

theorem used_le_installed_huawei_zte:
  "snd (hw_get_board_status run addr) \<le> fst (hw_get_board_status run addr)
   \<and> snd (hw_get_pon_port_status run addr) \<le> fst (hw_get_pon_port_status run addr)
   \<and> snd (hw_get_ont_status run addr) \<le> fst (hw_get_ont_status run addr)
   \<and> snd (zte_get_board_status run addr) \<le> fst (zte_get_board_status run addr)
   \<and> snd (zte_get_pon_port_status run addr) \<le> fst (zte_get_pon_port_status run addr)
   \<and> snd (zte_get_ont_status run addr) \<le> fst (zte_get_ont_status run addr)"
  by (intro conjI hw_board_le hw_pon_le hw_ont_le zte_board_le zte_pon_le zte_ont_le)

theorem used_le_installed_huawei_zte_witness:
  "hw_get_board_status fleet ''10.0.0.1'' = (2, 1)
   \<and> snd (hw_get_board_status fleet ''10.0.0.1'') \<le> fst (hw_get_board_status fleet ''10.0.0.1'')
   \<and> snd (zte_get_ont_status fleet ''10.0.0.1'') \<le> fst (zte_get_ont_status fleet ''10.0.0.1'')"
  using used_le_installed_huawei_zte[of fleet "''10.0.0.1''"] fleet_board by simp

end
